theory Spec2Isabelle
  imports Complex_Main
begin

section \<open>The SWC importer of \<open>src/__init__.py\<close>\<close>

text \<open>
  The importer reads an SWC file line by line into three structures of the operator
  object (\<open>nodes\<close>, \<open>index_from_id\<close>, \<open>vertices\<close>), resolves the parent links into
  \<open>edges\<close>, and derives two meshes: the skeleton (vertices and edges) and one square face
  per node that hosts a sphere.  The calls into the host application (\<open>bpy\<close>) are outside
  the model; the data handed to \<open>from_pydata\<close> is what the model returns.
\<close>

subsection \<open>Python values\<close>

text \<open>
  \<open>int()\<close> and \<open>float()\<close> are built-ins of the interpreter, and so is the arithmetic of
  floats.  They are parameters of the model: \<open>'f\<close> is the type of floats, a conversion
  that raises \<open>ValueError\<close> returns \<open>None\<close>, and \<open>int_error\<close> and \<open>float_error\<close>
  give the message of that \<open>ValueError\<close> for the token that was passed.  Every theorem
  below holds for all of them.
\<close>

record 'f builtins =
  int_of :: "string \<Rightarrow> int option"
  int_error :: "string \<Rightarrow> string"
  float_of :: "string \<Rightarrow> 'f option"
  float_error :: "string \<Rightarrow> string"
  fadd :: "'f \<Rightarrow> 'f \<Rightarrow> 'f"
  fsub :: "'f \<Rightarrow> 'f \<Rightarrow> 'f"
  fmul :: "'f \<Rightarrow> 'f \<Rightarrow> 'f"
  half :: "'f"

text \<open>
  The exceptions the code can raise.  The \<open>ValueError\<close> of a conversion carries its
  message, nothing else.  \<open>AttributeError\<close> is the one of line 50, where \<open>execute\<close>
  assigns to an attribute of \<open>None\<close>.
\<close>

datatype error = ValueError string | ValueError_unpack | KeyError int | AttributeError

text \<open>
  A \<open>dict\<close> iterates in insertion order (Python 3.7 and later), and storing under a
  key that is present replaces the value where the key stands.
\<close>

type_synonym ('k, 'v) dict = "('k \<times> 'v) list"

fun dict_set :: "('k, 'v) dict \<Rightarrow> 'k \<Rightarrow> 'v \<Rightarrow> ('k, 'v) dict" where
  "dict_set [] k v = [(k, v)]"
| "dict_set ((k', v') # d) k v =
     (if k' = k then (k, v) # d else (k', v') # dict_set d k v)"

definition dict_get :: "('k, 'v) dict \<Rightarrow> 'k \<Rightarrow> 'v option" where
  "dict_get d k = map_of d k"

definition dict_mem :: "('k, 'v) dict \<Rightarrow> 'k \<Rightarrow> bool" where
  "dict_mem d k = (k \<in> set (map fst d))"

subsection \<open>Strings\<close>

text \<open>
  A character is a code point below 256.  \<open>str.split()\<close> without arguments cuts at
  runs of the characters for which \<open>str.isspace\<close> holds and returns no empty field.
\<close>

definition whitespace :: "char list" where
  "whitespace = [CHR 0x09, CHR 0x0A, CHR 0x0B, CHR 0x0C, CHR 0x0D, CHR 0x1C, CHR 0x1D,
     CHR 0x1E, CHR 0x1F, CHR 0x20, CHR 0x85, CHR 0xA0]"

definition isspace :: "char \<Rightarrow> bool" where
  "isspace c = (c \<in> set whitespace)"

fun split_from :: "string \<Rightarrow> string \<Rightarrow> string list" where
  "split_from cur [] = (if cur = [] then [] else [cur])"
| "split_from cur (c # cs) =
     (if isspace c then (if cur = [] then split_from [] cs else cur # split_from [] cs)
      else split_from (cur @ [c]) cs)"

definition split :: "string \<Rightarrow> string list" where
  "split line = split_from [] line"

definition startswith :: "string \<Rightarrow> string \<Rightarrow> bool" where
  "startswith line p = (take (length p) line = p)"

definition slice :: "'a list \<Rightarrow> nat \<Rightarrow> nat \<Rightarrow> 'a list" where
  "slice xs a b = take (b - a) (drop a xs)"

subsection \<open>The operator's state\<close>

text \<open>
  One node is the dict built at lines 76 to 82.  No code updates such a dict or an
  \<open>xyz\<close> list in place, so a reference to one is modelled by its value.
\<close>

record 'f node =
  node_id :: int
  node_type :: int
  xyz :: "'f list"
  radius :: "'f"
  parent_id :: int

record 'f swc =
  nodes :: "(int, 'f node) dict"
  first_node :: "'f node option"
  index_from_id :: "(int, nat) dict"
  vertices :: "'f list list"
  edges :: "(nat \<times> nat) list"

subsection \<open>Reading one line (lines 66 to 75)\<close>

text \<open>The comprehension of line 73 converts left to right and stops at the first failure.\<close>

fun float_list :: "'f builtins \<Rightarrow> string list \<Rightarrow> error + 'f list" where
  "float_list py [] = Inr []"
| "float_list py (x # xs) =
     (case float_of py x of
        None \<Rightarrow> Inl (ValueError (float_error py x))
      | Some v \<Rightarrow>
          (case float_list py xs of Inl e \<Rightarrow> Inl e | Inr vs \<Rightarrow> Inr (v # vs)))"

definition convert_fields :: "'f builtins \<Rightarrow> string list \<Rightarrow> error + 'f node" where
  "convert_fields py fs =
     (case int_of py (fs ! 0) of
        None \<Rightarrow> Inl (ValueError (int_error py (fs ! 0)))
      | Some i \<Rightarrow>
     (case int_of py (fs ! 1) of
        None \<Rightarrow> Inl (ValueError (int_error py (fs ! 1)))
      | Some t \<Rightarrow>
     (case float_list py (slice fs 2 5) of
        Inl e \<Rightarrow> Inl e
      | Inr p \<Rightarrow>
     (case float_of py (fs ! 5) of
        None \<Rightarrow> Inl (ValueError (float_error py (fs ! 5)))
      | Some r \<Rightarrow>
     (case int_of py (fs ! 6) of
        None \<Rightarrow> Inl (ValueError (int_error py (fs ! 6)))
      | Some q \<Rightarrow>
          Inr \<lparr>node_id = i, node_type = t, xyz = p, radius = r, parent_id = q\<rparr>)))))"

text \<open>\<open>Inr None\<close> is the \<open>continue\<close> of lines 67 and 70.\<close>

definition parse_line :: "'f builtins \<Rightarrow> string \<Rightarrow> error + 'f node option" where
  "parse_line py line =
     (if startswith line ''#'' then Inr None
      else let fs = split line in
        if length fs < 7 then Inr None
        else (case convert_fields py fs of Inl e \<Rightarrow> Inl e | Inr d \<Rightarrow> Inr (Some d)))"

subsection \<open>Storing one node (lines 76 to 87)\<close>

text \<open>
  The state of the loop is the object and the local \<open>node_count\<close>.  Line 84 reads
  \<open>self.nodes[id]\<close> right after line 76 has stored it.
\<close>

definition store_node :: "'f swc \<times> nat \<Rightarrow> 'f node \<Rightarrow> 'f swc \<times> nat" where
  "store_node st d =
     (let s = fst st; node_count = snd st;
          nodes' = dict_set (nodes s) (node_id d) d
      in (s\<lparr>nodes := nodes',
            first_node :=
              (if first_node s = None then dict_get nodes' (node_id d) else first_node s),
            vertices := vertices s @ [xyz d],
            index_from_id := dict_set (index_from_id s) (node_id d) node_count\<rparr>,
          node_count + 1))"

fun read_lines :: "'f builtins \<Rightarrow> 'f swc \<times> nat \<Rightarrow> string list \<Rightarrow> error + 'f swc \<times> nat" where
  "read_lines py st [] = Inr st"
| "read_lines py st (line # rest) =
     (case parse_line py line of
        Inl e \<Rightarrow> Inl e
      | Inr None \<Rightarrow> read_lines py st rest
      | Inr (Some d) \<Rightarrow> read_lines py (store_node st d) rest)"

subsection \<open>Resolving the edges (lines 89 to 95)\<close>

fun resolve_edges ::
  "(int, nat) dict \<Rightarrow> (int, 'f node) dict \<Rightarrow> (nat \<times> nat) list \<Rightarrow> error + (nat \<times> nat) list"
where
  "resolve_edges idx [] es = Inr es"
| "resolve_edges idx ((i, d) # rest) es =
     (if \<not> dict_mem idx (parent_id d) then resolve_edges idx rest es
      else (case dict_get idx i of
              None \<Rightarrow> Inl (KeyError i)
            | Some v1 \<Rightarrow>
                (case dict_get idx (parent_id d) of
                   None \<Rightarrow> Inl (KeyError (parent_id d))
                 | Some v2 \<Rightarrow> resolve_edges idx rest (es @ [(v1, v2)]))))"

text \<open>
  \<open>load_swc_file\<close> takes the object as the last run left it and the lines of the file
  as the file iterator yields them.  An exception leaves \<open>execute\<close> at once, so the model
  returns the error alone.  The \<open>print\<close> of line 88 is left out.
\<close>

definition load_swc_file :: "'f builtins \<Rightarrow> 'f swc \<Rightarrow> string list \<Rightarrow> error + 'f swc" where
  "load_swc_file py self lines =
     (let s0 = self\<lparr>nodes := [], first_node := None, index_from_id := [], vertices := []\<rparr>
      in case read_lines py (s0, 0) lines of
           Inl e \<Rightarrow> Inl e
         | Inr st \<Rightarrow>
             (case resolve_edges (index_from_id (fst st)) (nodes (fst st)) [] of
                Inl e \<Rightarrow> Inl e
              | Inr es \<Rightarrow> Inr ((fst st)\<lparr>edges := es\<rparr>)))"

subsection \<open>The two meshes (lines 104 to 115 and 134 to 139)\<close>

definition corners :: "'f builtins \<Rightarrow> 'f \<Rightarrow> 'f \<Rightarrow> 'f \<Rightarrow> 'f \<Rightarrow> 'f list list" where
  "corners py x y z r =
     [[fsub py x r, fsub py y r, z],
      [fsub py x r, fadd py y r, z],
      [fadd py x r, fadd py y r, z],
      [fadd py x r, fsub py y r, z]]"

fun node_faces ::
  "'f builtins \<Rightarrow> (int, 'f node) dict \<Rightarrow> 'f list list \<Rightarrow> nat list list
     \<Rightarrow> error + 'f list list \<times> nat list list"
where
  "node_faces py [] verts faces = Inr (verts, faces)"
| "node_faces py ((k, d) # rest) verts faces =
     (let i = length verts in
      case xyz d of
        [x, y, z] \<Rightarrow>
          (let r = fmul py (half py) (radius d) in
           node_faces py rest (verts @ corners py x y z r) (faces @ [[i, i + 1, i + 2, i + 3]]))
      | _ \<Rightarrow> Inl ValueError_unpack)"

definition create_node_spheres ::
  "'f builtins \<Rightarrow> 'f swc \<Rightarrow> error + 'f list list \<times> nat list list" where
  "create_node_spheres py self = node_faces py (nodes self) [] []"

definition create_skeleton :: "'f swc \<Rightarrow> ('f list list \<times> (nat \<times> nat) list) option" where
  "create_skeleton self =
     (if length (nodes self) \<le> 0 then None else Some (vertices self, edges self))"

text \<open>
  \<open>execute\<close> (lines 41 to 56) loads the file, builds the skeleton, then the faces.
  \<open>create_skeleton\<close> returns \<open>None\<close> for an empty table, and the assignment
  \<open>skeleton.parent = root\<close> of line 50 then raises before the faces are built.
\<close>

record 'f meshes =
  skeleton :: "'f list list \<times> (nat \<times> nat) list"
  spheres :: "'f list list \<times> nat list list"

definition execute :: "'f builtins \<Rightarrow> 'f swc \<Rightarrow> string list \<Rightarrow> error + 'f swc \<times> 'f meshes" where
  "execute py self lines =
     (case load_swc_file py self lines of
        Inl e \<Rightarrow> Inl e
      | Inr s \<Rightarrow>
          (case create_skeleton s of
             None \<Rightarrow> Inl AttributeError
           | Some sk \<Rightarrow>
               (case create_node_spheres py s of
                  Inl e \<Rightarrow> Inl e
                | Inr sp \<Rightarrow> Inr (s, \<lparr>skeleton = sk, spheres = sp\<rparr>))))"

subsection \<open>A concrete interpreter for the examples\<close>

text \<open>
  For closed examples the conversions are instantiated with readers of plain decimal
  tokens (an optional sign, digits, and for floats an optional fraction), and floats with
  rationals.  On the tokens of the examples they return what \<open>int()\<close> and \<open>float()\<close>
  return, and the arithmetic of the examples is exact in binary floating point.  The
  messages are those of CPython for a token that \<open>repr\<close> prints as it is: \<open>int()\<close>
  cuts the quoted token at 200 characters, \<open>float()\<close> prints it whole.
\<close>

definition quoted :: "string \<Rightarrow> string" where
  "quoted tok = CHR 0x27 # tok @ [CHR 0x27]"

definition dec_int_error :: "string \<Rightarrow> string" where
  "dec_int_error tok = ''invalid literal for int() with base 10: '' @ take 200 (quoted tok)"

definition dec_float_error :: "string \<Rightarrow> string" where
  "dec_float_error tok = ''could not convert string to float: '' @ quoted tok"

definition digit_val :: "char \<Rightarrow> nat option" where
  "digit_val c = map_of (zip ''0123456789'' [0 ..< 10]) c"

fun digits_val :: "nat \<Rightarrow> string \<Rightarrow> nat option" where
  "digits_val acc [] = Some acc"
| "digits_val acc (c # cs) =
     (case digit_val c of None \<Rightarrow> None | Some v \<Rightarrow> digits_val (10 * acc + v) cs)"

definition unsigned_val :: "string \<Rightarrow> nat option" where
  "unsigned_val tok = (if tok = [] then None else digits_val 0 tok)"

definition dec_int :: "string \<Rightarrow> int option" where
  "dec_int tok =
     (case tok of
        [] \<Rightarrow> None
      | c # cs \<Rightarrow>
          if c = CHR ''-'' then map_option (\<lambda>n. - int n) (unsigned_val cs)
          else if c = CHR ''+'' then map_option int (unsigned_val cs)
          else map_option int (unsigned_val tok))"

definition unsigned_rat :: "string \<Rightarrow> rat option" where
  "unsigned_rat tok =
     (let whole = takeWhile (\<lambda>c. c \<noteq> CHR ''.'') tok;
          rest = dropWhile (\<lambda>c. c \<noteq> CHR ''.'') tok
      in case rest of
           [] \<Rightarrow> map_option of_nat (unsigned_val whole)
         | _ # fr \<Rightarrow>
             (case (unsigned_val whole, unsigned_val fr) of
                (Some w, Some f) \<Rightarrow> Some (of_nat w + of_nat f / 10 ^ length fr)
              | _ \<Rightarrow> None))"

definition dec_float :: "string \<Rightarrow> rat option" where
  "dec_float tok =
     (case tok of
        [] \<Rightarrow> None
      | c # cs \<Rightarrow>
          if c = CHR ''-'' then map_option uminus (unsigned_rat cs)
          else if c = CHR ''+'' then unsigned_rat cs
          else unsigned_rat tok)"

definition decimal_py :: "rat builtins" where
  "decimal_py =
     \<lparr>int_of = dec_int, int_error = dec_int_error, float_of = dec_float,
      float_error = dec_float_error, fadd = (+), fsub = (-), fmul = (*), half = 1 / 2\<rparr>"

definition fresh :: "'f swc" where
  "fresh = \<lparr>nodes = [], first_node = None, index_from_id = [], vertices = [], edges = []\<rparr>"

subsection \<open>Notions for stating the properties\<close>

text \<open>
  The nodes of the accepted lines, in file order; an exception at a line is the result,
  as in \<open>read_lines\<close>.
\<close>

fun accepted :: "'f builtins \<Rightarrow> string list \<Rightarrow> error + 'f node list" where
  "accepted py [] = Inr []"
| "accepted py (line # rest) =
     (case parse_line py line of
        Inl e \<Rightarrow> Inl e
      | Inr None \<Rightarrow> accepted py rest
      | Inr (Some d) \<Rightarrow> (case accepted py rest of Inl e \<Rightarrow> Inl e | Inr ds \<Rightarrow> Inr (d # ds)))"

text \<open>The distinct elements of a list in the order of their first occurrence.\<close>

definition first_seen :: "'a list \<Rightarrow> 'a list" where
  "first_seen ks = rev (remdups (rev ks))"

text \<open>The object after lines 59 to 62, and after the nodes \<open>ds\<close> have been stored.\<close>

definition cleared :: "'f swc \<Rightarrow> 'f swc" where
  "cleared self = self\<lparr>nodes := [], first_node := None, index_from_id := [], vertices := []\<rparr>"

definition stored :: "'f swc \<Rightarrow> 'f node list \<Rightarrow> 'f swc \<times> nat" where
  "stored self ds = foldl store_node (cleared self, 0) ds"

text \<open>The edge from the index of a table entry to the index of its parent, if both exist.\<close>

definition edge_of :: "(int, nat) dict \<Rightarrow> int \<times> 'f node \<Rightarrow> (nat \<times> nat) option" where
  "edge_of idx kd =
     (case (dict_get idx (fst kd), dict_get idx (parent_id (snd kd))) of
        (Some v1, Some v2) \<Rightarrow> Some (v1, v2)
      | _ \<Rightarrow> None)"

text \<open>
  The square that lines 109 to 114 place around the centre \<open>c\<close> for the radius \<open>r\<close>.
\<close>

definition marker :: "'f builtins \<Rightarrow> 'f list \<Rightarrow> 'f \<Rightarrow> 'f list list" where
  "marker py c r =
     (case c of [x, y, z] \<Rightarrow> corners py x y z (fmul py (half py) r) | _ \<Rightarrow> [])"

text \<open>
  Field \<open>k\<close> of a line is converted by \<open>int()\<close> when \<open>k\<close> is 0, 1 or 6 and by
  \<open>float()\<close> otherwise (lines 71 to 75); \<open>field_fails\<close> says that the conversion of the
  token raises, and \<open>field_error\<close> is the exception it raises.
\<close>

definition int_field :: "nat \<Rightarrow> bool" where
  "int_field k \<longleftrightarrow> k = 0 \<or> k = 1 \<or> k = 6"

definition field_fails :: "'f builtins \<Rightarrow> nat \<Rightarrow> string \<Rightarrow> bool" where
  "field_fails py k tok =
     (if int_field k then int_of py tok = None else float_of py tok = None)"

definition field_error :: "'f builtins \<Rightarrow> nat \<Rightarrow> string \<Rightarrow> error" where
  "field_error py k tok =
     ValueError (if int_field k then int_error py tok else float_error py tok)"

text \<open>One of the conversions of lines 71 to 75 raises.\<close>

definition conversion_fails :: "'f builtins \<Rightarrow> string list \<Rightarrow> bool" where
  "conversion_fails py fs \<longleftrightarrow>
     int_of py (fs ! 0) = None \<or> int_of py (fs ! 1) = None \<or> float_of py (fs ! 2) = None \<or>
     float_of py (fs ! 3) = None \<or> float_of py (fs ! 4) = None \<or> float_of py (fs ! 5) = None \<or>
     int_of py (fs ! 6) = None"

section \<open>The dictionaries and the loops\<close>

lemma map_of_dict_set: "map_of (dict_set d k v) = (map_of d)(k \<mapsto> v)"
  by (induction d k v rule: dict_set.induct) auto

lemma dict_get_dict_set: "dict_get (dict_set d k v) k' = (if k' = k then Some v else dict_get d k')"
  by (simp add: dict_get_def map_of_dict_set)

lemma keys_dict_set:
  "map fst (dict_set d k v) = (if k \<in> set (map fst d) then map fst d else map fst d @ [k])"
  by (induction d k v rule: dict_set.induct) auto

lemma dict_set_absent: "k \<notin> set (map fst d) \<Longrightarrow> dict_set d k v = d @ [(k, v)]"
  by (induction d k v rule: dict_set.induct) auto

lemma set_dict_set: "set (dict_set d k v) \<subseteq> insert (k, v) (set d)"
  by (induction d k v rule: dict_set.induct) auto

lemma dict_mem_iff: "dict_mem d k \<longleftrightarrow> dict_get d k \<noteq> None"
  by (simp add: dict_mem_def dict_get_def map_of_eq_None_iff)

lemma dict_mem_dict_set: "dict_mem (dict_set d k v) k' \<longleftrightarrow> k' = k \<or> dict_mem d k'"
  by (simp add: dict_mem_iff dict_get_dict_set)

lemma first_seen_snoc:
  "first_seen (ks @ [k]) = (if k \<in> set ks then first_seen ks else first_seen ks @ [k])"
  by (simp add: first_seen_def)

lemma set_first_seen: "set (first_seen ks) = set ks"
  by (simp add: first_seen_def)

lemma read_lines_accepted:
  "read_lines py st lines =
     (case accepted py lines of Inl e \<Rightarrow> Inl e | Inr ds \<Rightarrow> Inr (foldl store_node st ds))"
  by (induction lines arbitrary: st) (auto split: sum.splits option.splits)

lemma stored_Nil: "stored self [] = (cleared self, 0)"
  by (simp add: stored_def)

lemma stored_snoc: "stored self (ds @ [d]) = store_node (stored self ds) d"
  by (simp add: stored_def)

lemma stored_count: "snd (stored self ds) = length ds"
  by (induction ds rule: rev_induct) (simp_all add: stored_Nil stored_snoc store_node_def Let_def)

lemma stored_vertices: "vertices (fst (stored self ds)) = map xyz ds"
  by (induction ds rule: rev_induct)
     (simp_all add: stored_Nil stored_snoc store_node_def Let_def cleared_def)

lemma stored_keys: "map fst (nodes (fst (stored self ds))) = first_seen (map node_id ds)"
  by (induction ds rule: rev_induct)
     (simp_all add: stored_Nil stored_snoc store_node_def Let_def cleared_def keys_dict_set
        first_seen_snoc set_first_seen first_seen_def)

lemma stored_index_mem:
  "dict_mem (index_from_id (fst (stored self ds))) k \<longleftrightarrow> k \<in> set (map node_id ds)"
proof (induction ds rule: rev_induct)
  case Nil
  show ?case by (simp add: stored_Nil cleared_def dict_mem_def)
next
  case (snoc d ds)
  then show ?case
    by (auto simp add: stored_snoc store_node_def Let_def dict_mem_dict_set)
qed

lemma stored_nodes_mem:
  "dict_mem (nodes (fst (stored self ds))) k \<longleftrightarrow> k \<in> set (map node_id ds)"
  by (simp add: dict_mem_def stored_keys set_first_seen)

lemma stored_nodes_get:
  "dict_get (nodes (fst (stored self ds))) k =
     (case filter (\<lambda>d. node_id d = k) ds of [] \<Rightarrow> None | d # r \<Rightarrow> Some (last (d # r)))"
  by (induction ds rule: rev_induct)
     (auto simp add: stored_Nil stored_snoc store_node_def Let_def cleared_def map_of_dict_set
        dict_get_def split: list.splits)

lemma stored_index_get:
  "dict_get (index_from_id (fst (stored self ds))) k = Some i \<longleftrightarrow>
     i < length ds \<and> node_id (ds ! i) = k \<and> k \<notin> set (map node_id (drop (Suc i) ds))"
proof (induction ds rule: rev_induct)
  case Nil
  show ?case by (simp add: stored_Nil cleared_def dict_get_def)
next
  case (snoc d ds)
  show ?case
  proof (cases "i < length ds")
    case True
    then show ?thesis
      using snoc.IH
      by (auto simp add: stored_snoc store_node_def Let_def dict_get_dict_set stored_count nth_append)
  next
    case False
    then show ?thesis
      using snoc.IH
      by (auto simp add: stored_snoc store_node_def Let_def dict_get_dict_set stored_count nth_append)
  qed
qed

lemma stored_nodes_at:
  "dict_get (index_from_id (fst (stored self ds))) k = Some i \<Longrightarrow>
   dict_get (nodes (fst (stored self ds))) k = Some (ds ! i)"
proof (induction ds rule: rev_induct)
  case Nil
  then show ?case by (simp add: stored_Nil cleared_def dict_get_def)
next
  case (snoc d ds)
  then show ?case
    by (auto simp add: stored_snoc store_node_def Let_def dict_get_dict_set stored_count nth_append
        stored_index_get split: if_splits)
qed

lemma stored_first_node:
  "first_node (fst (stored self ds)) = (case ds of [] \<Rightarrow> None | d # r \<Rightarrow> Some d)"
proof (induction ds rule: rev_induct)
  case Nil
  show ?case by (simp add: stored_Nil cleared_def)
next
  case (snoc d ds)
  have "first_node (fst (stored self (ds @ [d]))) =
          (if first_node (fst (stored self ds)) = None then Some d
           else first_node (fst (stored self ds)))"
    by (simp add: stored_snoc store_node_def Let_def dict_get_dict_set)
  with snoc.IH show ?case
    by (cases ds) simp_all
qed

lemma stored_nodes_set:
  "set (nodes (fst (stored self ds))) \<subseteq> (\<lambda>d. (node_id d, d)) ` set ds"
proof (induction ds rule: rev_induct)
  case Nil
  show ?case by (simp add: stored_Nil cleared_def)
next
  case (snoc d ds)
  then show ?case
    using set_dict_set [of "nodes (fst (stored self ds))" "node_id d" d]
    by (auto simp add: stored_snoc store_node_def Let_def)
qed

lemma stored_nodes_distinct:
  "distinct (map node_id ds) \<Longrightarrow> nodes (fst (stored self ds)) = map (\<lambda>d. (node_id d, d)) ds"
proof (induction ds rule: rev_induct)
  case Nil
  show ?case by (simp add: stored_Nil cleared_def)
next
  case (snoc d ds)
  then show ?case
    by (simp add: stored_snoc store_node_def Let_def dict_set_absent comp_def)
qed

lemma set_map_filter:
  "set (List.map_filter f xs) = {y. \<exists>x \<in> set xs. f x = Some y}"
  by (induction xs) (auto split: option.splits)

lemma length_map_filter:
  "length (List.map_filter f xs) + length (filter (\<lambda>x. f x = None) xs) = length xs"
  by (induction xs) (auto split: option.splits)

lemma resolve_edges_eq:
  "\<forall>kd \<in> set nd. dict_mem idx (fst kd) \<Longrightarrow>
   resolve_edges idx nd es = Inr (es @ List.map_filter (edge_of idx) nd)"
proof (induction nd arbitrary: es)
  case Nil
  show ?case by simp
next
  case (Cons kd nd)
  obtain k d where kd: "kd = (k, d)" by (cases kd)
  from Cons.prems kd obtain v1 where v1: "dict_get idx k = Some v1"
    by (auto simp add: dict_mem_iff)
  show ?case
  proof (cases "dict_get idx (parent_id d)")
    case None
    then show ?thesis
      using Cons kd v1 by (simp add: edge_of_def dict_mem_iff)
  next
    case (Some v2)
    then show ?thesis
      using Cons kd v1 by (simp add: edge_of_def dict_mem_iff)
  qed
qed

lemma stored_resolve:
  "resolve_edges (index_from_id (fst (stored self ds))) (nodes (fst (stored self ds))) [] =
     Inr (List.map_filter (edge_of (index_from_id (fst (stored self ds))))
            (nodes (fst (stored self ds))))"
proof -
  have "\<forall>kd \<in> set (nodes (fst (stored self ds))).
          dict_mem (index_from_id (fst (stored self ds))) (fst kd)"
    using stored_nodes_set [of self ds] by (auto simp add: stored_index_mem)
  then show ?thesis
    using resolve_edges_eq [of "nodes (fst (stored self ds))" "index_from_id (fst (stored self ds))" "[]"]
    by simp
qed

lemma load_swc_file_eq:
  "load_swc_file py self lines =
     (case accepted py lines of
        Inl e \<Rightarrow> Inl e
      | Inr ds \<Rightarrow>
          Inr ((fst (stored self ds))
                 \<lparr>edges := List.map_filter (edge_of (index_from_id (fst (stored self ds))))
                             (nodes (fst (stored self ds)))\<rparr>))"
  by (simp add: load_swc_file_def read_lines_accepted stored_resolve
       stored_def [symmetric] cleared_def [symmetric] split: sum.splits)

lemma load_swc_file_InrE:
  assumes "load_swc_file py self lines = Inr s"
  obtains ds where "accepted py lines = Inr ds"
    and "nodes s = nodes (fst (stored self ds))"
    and "index_from_id s = index_from_id (fst (stored self ds))"
    and "vertices s = map xyz ds"
    and "first_node s = (case ds of [] \<Rightarrow> None | d # r \<Rightarrow> Some d)"
    and "edges s = List.map_filter (edge_of (index_from_id s)) (nodes s)"
proof (cases "accepted py lines")
  case (Inl e)
  with assms show ?thesis by (simp add: load_swc_file_eq)
next
  case (Inr ds)
  with assms have s: "s = (fst (stored self ds))
      \<lparr>edges := List.map_filter (edge_of (index_from_id (fst (stored self ds))))
                  (nodes (fst (stored self ds)))\<rparr>"
    by (simp add: load_swc_file_eq)
  show ?thesis
  proof (rule that [of ds])
    show "accepted py lines = Inr ds" by (fact Inr)
    show "nodes s = nodes (fst (stored self ds))" by (simp add: s)
    show "index_from_id s = index_from_id (fst (stored self ds))" by (simp add: s)
    show "vertices s = map xyz ds" by (simp add: s stored_vertices)
    show "first_node s = (case ds of [] \<Rightarrow> None | d # r \<Rightarrow> Some d)"
      by (simp add: s stored_first_node)
    show "edges s = List.map_filter (edge_of (index_from_id s)) (nodes s)" by (simp add: s)
  qed
qed

subsection \<open>Lines\<close>

lemma seven_fields:
  assumes "7 \<le> length fs"
  obtains a b c d e f g rest where "fs = a # b # c # d # e # f # g # rest"
  using assms by (auto simp add: Suc_le_length_iff eval_nat_numeral)

lemma convert_fields_take: "7 \<le> length fs \<Longrightarrow> convert_fields py (take 7 fs) = convert_fields py fs"
  by (erule seven_fields)
     (simp add: convert_fields_def slice_def split: option.splits sum.splits)

lemma conversion_fails_iff:
  "conversion_fails py fs \<longleftrightarrow> (\<exists>k<7. field_fails py k (fs ! k))"
proof
  assume "conversion_fails py fs"
  then consider "field_fails py 0 (fs ! 0)" | "field_fails py 1 (fs ! 1)"
    | "field_fails py 2 (fs ! 2)" | "field_fails py 3 (fs ! 3)" | "field_fails py 4 (fs ! 4)"
    | "field_fails py 5 (fs ! 5)" | "field_fails py 6 (fs ! 6)"
    by (auto simp add: conversion_fails_def field_fails_def int_field_def)
  then show "\<exists>k<7. field_fails py k (fs ! k)"
    by cases (rule exI [of _ 0], simp, rule exI [of _ 1], simp, rule exI [of _ 2], simp,
      rule exI [of _ 3], simp, rule exI [of _ 4], simp, rule exI [of _ 5], simp,
      rule exI [of _ 6], simp)
next
  assume "\<exists>k<7. field_fails py k (fs ! k)"
  then obtain k where "k < 7" and f: "field_fails py k (fs ! k)" by blast
  then consider "k = 0" | "k = 1" | "k = 2" | "k = 3" | "k = 4" | "k = 5" | "k = 6"
    by linarith
  then show "conversion_fails py fs"
    using f by cases (simp_all add: conversion_fails_def field_fails_def int_field_def)
qed

lemma convert_fields_fails:
  assumes "7 \<le> length fs" and "conversion_fails py fs"
  shows "\<exists>k<7. field_fails py k (fs ! k) \<and> (\<forall>j<k. \<not> field_fails py j (fs ! j)) \<and>
           convert_fields py fs = Inl (field_error py k (fs ! k))"
proof -
  from assms(1) obtain a b c d e f g rest where fs: "fs = a # b # c # d # e # f # g # rest"
    by (rule seven_fields)
  from assms(2) have "\<exists>k. k < 7 \<and> field_fails py k (fs ! k)"
    by (simp add: conversion_fails_iff)
  then obtain k where k: "k < 7 \<and> field_fails py k (fs ! k)"
    and least: "\<forall>j<k. \<not> (j < 7 \<and> field_fails py j (fs ! j))"
    using exists_least_iff [of "\<lambda>k. k < 7 \<and> field_fails py k (fs ! k)"] by blast
  from k least have before: "\<not> field_fails py j (fs ! j)" if "j < k" for j
    using that by auto
  from k consider "k = 0" | "k = 1" | "k = 2" | "k = 3" | "k = 4" | "k = 5" | "k = 6"
    by linarith
  then have "convert_fields py fs = Inl (field_error py k (fs ! k))"
  proof cases
    case 1
    with k show ?thesis
      by (simp add: fs convert_fields_def field_fails_def field_error_def int_field_def)
  next
    case 2
    with k before [of 0] show ?thesis
      by (auto simp add: fs convert_fields_def field_fails_def field_error_def int_field_def)
  next
    case 3
    with k before [of 0] before [of 1] show ?thesis
      by (auto simp add: fs convert_fields_def slice_def field_fails_def field_error_def
          int_field_def)
  next
    case 4
    with k before [of 0] before [of 1] before [of 2] show ?thesis
      by (auto simp add: fs convert_fields_def slice_def field_fails_def field_error_def
          int_field_def)
  next
    case 5
    with k before [of 0] before [of 1] before [of 2] before [of 3] show ?thesis
      by (auto simp add: fs convert_fields_def slice_def field_fails_def field_error_def
          int_field_def)
  next
    case 6
    with k before [of 0] before [of 1] before [of 2] before [of 3] before [of 4] show ?thesis
      by (auto simp add: fs convert_fields_def slice_def field_fails_def field_error_def
          int_field_def)
  next
    case 7
    with k before [of 0] before [of 1] before [of 2] before [of 3] before [of 4] before [of 5]
    show ?thesis
      by (auto simp add: fs convert_fields_def slice_def field_fails_def field_error_def
          int_field_def)
  qed
  with k before show ?thesis by blast
qed

lemma convert_fields_succeeds:
  assumes "7 \<le> length fs" and "\<not> conversion_fails py fs"
  shows "\<exists>i t x y z r q.
           convert_fields py fs =
             Inr \<lparr>node_id = i, node_type = t, xyz = [x, y, z], radius = r, parent_id = q\<rparr> \<and>
           int_of py (fs ! 0) = Some i \<and> int_of py (fs ! 1) = Some t \<and>
           float_of py (fs ! 2) = Some x \<and> float_of py (fs ! 3) = Some y \<and>
           float_of py (fs ! 4) = Some z \<and> float_of py (fs ! 5) = Some r \<and>
           int_of py (fs ! 6) = Some q"
proof -
  from assms(1) obtain a b c d e f g rest where fs: "fs = a # b # c # d # e # f # g # rest"
    by (rule seven_fields)
  from assms(2) show ?thesis
    by (auto simp add: fs conversion_fails_def convert_fields_def slice_def)
qed

lemma convert_fields_xyz: 
  assumes "7 \<le> length fs" and "convert_fields py fs = Inr d"
  shows "length (xyz d) = 3"
proof -
  from assms(1) obtain a b c d e f g rest where fs: "fs = a # b # c # d # e # f # g # rest"
    by (rule seven_fields)
  from assms(2) show ?thesis
    by (auto simp add: fs convert_fields_def slice_def split: option.splits sum.splits)
qed

lemma parse_line_xyz:
  assumes "parse_line py line = Inr (Some d)"
  shows "length (xyz d) = 3"
proof -
  from assms have "7 \<le> length (split line)" and "convert_fields py (split line) = Inr d"
    by (auto simp add: parse_line_def Let_def split: if_splits sum.splits)
  then show ?thesis by (rule convert_fields_xyz)
qed

lemma accepted_xyz: "accepted py lines = Inr ds \<Longrightarrow> d \<in> set ds \<Longrightarrow> length (xyz d) = 3"
  by (induction lines arbitrary: ds)
     (auto simp add: parse_line_xyz split: sum.splits option.splits)

lemma accepted_append:
  "accepted py (xs @ ys) =
     (case accepted py xs of
        Inl e \<Rightarrow> Inl e
      | Inr ds \<Rightarrow> (case accepted py ys of Inl e \<Rightarrow> Inl e | Inr es \<Rightarrow> Inr (ds @ es)))"
  by (induction xs) (auto split: sum.splits option.splits)

lemma parse_line_skip:
  "startswith line ''#'' \<or> length (split line) < 7 \<Longrightarrow> parse_line py line = Inr None"
  by (auto simp add: parse_line_def Let_def)

lemma accepted_skip:
  "parse_line py line = Inr None \<Longrightarrow> accepted py (before @ line # rest) = accepted py (before @ rest)"
  by (simp add: accepted_append split: sum.splits)

lemma accepted_abort:
  "parse_line py line = Inl e \<Longrightarrow> accepted py before = Inr ds \<Longrightarrow>
   accepted py (before @ line # rest) = Inl e"
  by (simp add: accepted_append)

subsection \<open>The index\<close>

lemma stored_nodes_distinct_keys: "distinct (map fst (nodes (fst (stored self ds))))"
  by (simp add: stored_keys first_seen_def)

lemma stored_index_inj:
  assumes "dict_get (index_from_id (fst (stored self ds))) k = Some v"
    and "dict_get (index_from_id (fst (stored self ds))) k' = Some v"
  shows "k = k'"
  using assms by (simp add: stored_index_get)

lemma nth_in_drop: "n \<le> j \<Longrightarrow> j < length xs \<Longrightarrow> xs ! j \<in> set (drop n xs)"
proof -
  assume "n \<le> j" and "j < length xs"
  then have "drop n xs ! (j - n) = xs ! j" and "j - n < length (drop n xs)"
    by simp_all
  then show ?thesis by (metis nth_mem)
qed

subsection \<open>The faces\<close>

lemma marker_length: "length c = 3 \<Longrightarrow> length (marker py c r) = 4"
  by (auto simp add: marker_def corners_def length_Suc_conv eval_nat_numeral)

lemma node_faces_eq:
  assumes "\<forall>kd \<in> set nd. length (xyz (snd kd)) = 3"
  shows "node_faces py nd verts faces =
           Inr (verts @ concat (map (\<lambda>kd. marker py (xyz (snd kd)) (radius (snd kd))) nd),
                faces @ map (\<lambda>m. [length verts + 4 * m, length verts + 4 * m + 1,
                                    length verts + 4 * m + 2, length verts + 4 * m + 3])
                          [0 ..< length nd])"
  using assms
proof (induction nd arbitrary: verts faces)
  case Nil
  show ?case by simp
next
  case (Cons kd nd)
  obtain k d where kd: "kd = (k, d)" by (cases kd)
  from Cons.prems kd have "length (xyz d) = 3" by simp
  then obtain x y z where c: "xyz d = [x, y, z]"
    by (auto simp add: length_Suc_conv eval_nat_numeral)
  have len: "length (corners py x y z r) = 4" for r
    by (simp add: corners_def)
  from Cons.prems have rest: "\<forall>kd \<in> set nd. length (xyz (snd kd)) = 3" by simp
  show ?case
    by (simp add: kd c Let_def Cons.IH [OF rest] marker_def len map_upt_Suc
        del: upt_Suc)
qed

lemma concat_nth_blocks:
  assumes "\<forall>b \<in> set bs. length b = 4" and "i < length bs" and "c < 4"
  shows "concat bs ! (4 * i + c) = bs ! i ! c"
  using assms
proof (induction bs arbitrary: i)
  case Nil
  then show ?case by simp
next
  case (Cons b bs)
  show ?case
  proof (cases i)
    case 0
    with Cons.prems show ?thesis by (simp add: nth_append)
  next
    case (Suc i')
    with Cons.prems have "concat bs ! (4 * i' + c) = bs ! i' ! c"
      by (intro Cons.IH) simp_all
    moreover have "4 * i + c = length b + (4 * i' + c)"
      using Cons.prems Suc by simp
    ultimately show ?thesis
      using Suc by (simp only: concat.simps nth_append_length_plus nth_Cons_Suc)
  qed
qed

lemma four_nths: "length b = 4 \<Longrightarrow> [b ! 0, b ! 1, b ! 2, b ! 3] = b"
  by (auto simp add: length_Suc_conv eval_nat_numeral)

subsection \<open>The object before the run\<close>

lemma cleared_edges: "cleared self = (cleared self')\<lparr>edges := edges self\<rparr>"
  by (cases self, cases self') (simp add: cleared_def)

lemma store_node_edges:
  "store_node (s\<lparr>edges := e\<rparr>, n) d =
     ((fst (store_node (s, n) d))\<lparr>edges := e\<rparr>, snd (store_node (s, n) d))"
  by (simp add: store_node_def Let_def)

lemma stored_edges_only:
  "stored self ds = ((fst (stored self' ds))\<lparr>edges := edges self\<rparr>, snd (stored self' ds))"
proof (induction ds rule: rev_induct)
  case Nil
  show ?case using cleared_edges [of self self'] by (simp add: stored_Nil)
next
  case (snoc d ds)
  have "stored self (ds @ [d]) = store_node (stored self ds) d"
    by (rule stored_snoc)
  also have "\<dots> = store_node ((fst (stored self' ds))\<lparr>edges := edges self\<rparr>, snd (stored self' ds)) d"
    by (subst snoc.IH) (rule refl)
  also have "\<dots> = ((fst (store_node (fst (stored self' ds), snd (stored self' ds)) d))\<lparr>edges := edges self\<rparr>,
      snd (store_node (fst (stored self' ds), snd (stored self' ds)) d))"
    by (rule store_node_edges)
  finally show ?case by (simp add: stored_snoc)
qed

section \<open>The claims\<close>

subsection \<open>C1: a node that is its own parent\<close>

text \<open>
  Claim C1 says that a record whose \<open>parent_id\<close> equals its own id receives no edge.
  The loop of lines 90 to 95 only asks whether the parent's id is a key of
  \<open>index_from_id\<close>, and the node's own id always is.  C1 as amended: for every record of
  the table whose \<open>parent_id\<close> equals its own id, the edge from the node's index to
  itself is emitted.
\<close>

theorem self_loop_edge_kept:
  assumes "load_swc_file py self lines = Inr s"
    and "(k, d) \<in> set (nodes s)"
    and "parent_id d = k"
  shows "\<exists>v. dict_get (index_from_id s) k = Some v \<and> (v, v) \<in> set (edges s)"
proof -
  from assms(1) obtain ds where nd: "nodes s = nodes (fst (stored self ds))"
    and ix: "index_from_id s = index_from_id (fst (stored self ds))"
    and es: "edges s = List.map_filter (edge_of (index_from_id s)) (nodes s)"
    by (rule load_swc_file_InrE)
  from assms(2) nd have "k \<in> set (map node_id ds)"
    using stored_nodes_set [of self ds] by auto
  then have "dict_mem (index_from_id s) k"
    by (simp add: ix stored_index_mem)
  then obtain v where v: "dict_get (index_from_id s) k = Some v"
    by (auto simp add: dict_mem_iff)
  with assms(3) have "edge_of (index_from_id s) (k, d) = Some (v, v)"
    by (simp add: edge_of_def)
  with assms(2) have "(v, v) \<in> set (edges s)"
    by (auto simp add: es set_map_filter)
  with v show ?thesis by blast
qed

text \<open>
  Counterexample to C1 as stated: the only record of this file is its own parent, and the
  edge list holds the edge \<open>(0, 0)\<close>.
\<close>

theorem self_loop_counterexample:
  "load_swc_file decimal_py fresh [''1 1 0 0 0 1 1''] =
     Inr \<lparr>nodes = [(1, \<lparr>node_id = 1, node_type = 1, xyz = [0, 0, 0], radius = 1, parent_id = 1\<rparr>)],
          first_node = Some \<lparr>node_id = 1, node_type = 1, xyz = [0, 0, 0], radius = 1, parent_id = 1\<rparr>,
          index_from_id = [(1, 0)],
          vertices = [[0, 0, 0]],
          edges = [(0, 0)]\<rparr>"
  by code_simp

text \<open>The amended C1 at a file whose second node is its own parent.\<close>

theorem self_loop_edge_kept_witness:
  "load_swc_file decimal_py fresh [''1 1 0 0 0 1 -1'', ''2 3 1 0 0 1 2''] =
     Inr \<lparr>nodes = [(1, \<lparr>node_id = 1, node_type = 1, xyz = [0, 0, 0], radius = 1, parent_id = - 1\<rparr>),
                   (2, \<lparr>node_id = 2, node_type = 3, xyz = [1, 0, 0], radius = 1, parent_id = 2\<rparr>)],
          first_node = Some \<lparr>node_id = 1, node_type = 1, xyz = [0, 0, 0], radius = 1, parent_id = - 1\<rparr>,
          index_from_id = [(1, 0), (2, 1)],
          vertices = [[0, 0, 0], [1, 0, 0]],
          edges = [(1, 1)]\<rparr>
   \<and> (\<exists>v. dict_get [(1, 0), (2, 1 :: nat)] (2 :: int) = Some v \<and> (v, v) \<in> set [(1 :: nat, 1 :: nat)])"
proof -
  let ?d = "\<lparr>node_id = 2, node_type = 3, xyz = [1, 0, 0 :: rat], radius = 1, parent_id = 2\<rparr>"
  let ?s = "\<lparr>nodes = [(1, \<lparr>node_id = 1, node_type = 1, xyz = [0, 0, 0 :: rat], radius = 1, parent_id = - 1\<rparr>),
                   (2, ?d)],
          first_node = Some \<lparr>node_id = 1, node_type = 1, xyz = [0, 0, 0], radius = 1, parent_id = - 1\<rparr>,
          index_from_id = [(1, 0), (2, 1)],
          vertices = [[0, 0, 0], [1, 0, 0]],
          edges = [(1, 1)]\<rparr>"
  have run: "load_swc_file decimal_py fresh [''1 1 0 0 0 1 -1'', ''2 3 1 0 0 1 2''] = Inr ?s"
    by code_simp
  have mem: "(2, ?d) \<in> set (nodes ?s)" by simp
  have loop: "parent_id ?d = 2" by simp
  from self_loop_edge_kept [OF run mem loop] run show ?thesis by simp
qed

subsection \<open>C2: a line that reuses an id\<close>

text \<open>
  Claim C2 says that a node whose id was seen before replaces the contents of the table
  entry while the index of the id and the vertex slot stay those of the first occurrence.
  Line 86 stores \<open>node_count\<close> under the id at every accepted line and line 85 appends
  a vertex at every accepted line.  C2 as amended: let the loop have read the lines
  \<open>before\<close> and stand in the state \<open>s\<close> with the count \<open>n\<close>, and let the next line
  give a node \<open>d\<close> whose id is a key of the table.  After that line the entry of the id
  holds \<open>d\<close>, the order of the table's keys is unchanged, the index of the id is \<open>n\<close>,
  the position of the new line among the accepted ones, the vertex list keeps all its
  slots and gains the one of \<open>d\<close> at position \<open>n\<close>, and \<open>first_node\<close> is unchanged.
\<close>

theorem seen_id_replaces:
  assumes "read_lines py (cleared self, 0) before = Inr (s, n)"
    and "parse_line py line = Inr (Some d)"
    and "dict_mem (nodes s) (node_id d)"
  shows "\<exists>s'. read_lines py (cleared self, 0) (before @ [line]) = Inr (s', n + 1)
           \<and> dict_get (nodes s') (node_id d) = Some d
           \<and> map fst (nodes s') = map fst (nodes s)
           \<and> dict_get (index_from_id s') (node_id d) = Some n
           \<and> n = length (vertices s)
           \<and> vertices s' = vertices s @ [xyz d]
           \<and> first_node s' = first_node s"
proof -
  from assms(1) obtain ds where acc: "accepted py before = Inr ds"
    and st: "stored self ds = (s, n)"
    by (auto simp add: read_lines_accepted stored_def split: sum.splits)
  from assms(2) acc have "accepted py (before @ [line]) = Inr (ds @ [d])"
    by (simp add: accepted_append)
  then have next_state: "read_lines py (cleared self, 0) (before @ [line]) = Inr (store_node (s, n) d)"
    by (simp add: read_lines_accepted st [symmetric] stored_def)
  from st have s: "s = fst (stored self ds)" and n: "n = snd (stored self ds)"
    by simp_all
  have count: "n = length (vertices s)"
    by (simp add: s n stored_count stored_vertices)
  from assms(3) have "ds \<noteq> []"
    by (auto simp add: s stored_nodes_mem)
  then have first: "first_node s \<noteq> None"
    by (cases ds) (simp_all add: s stored_first_node)
  let ?s' = "fst (store_node (s, n) d)"
  have "store_node (s, n) d = (?s', n + 1)"
    by (simp add: store_node_def Let_def)
  moreover have "dict_get (nodes ?s') (node_id d) = Some d"
    by (simp add: store_node_def Let_def dict_get_dict_set)
  moreover from assms(3) have "map fst (nodes ?s') = map fst (nodes s)"
    by (simp add: store_node_def Let_def keys_dict_set dict_mem_def)
  moreover have "dict_get (index_from_id ?s') (node_id d) = Some n"
    by (simp add: store_node_def Let_def dict_get_dict_set)
  moreover have "vertices ?s' = vertices s @ [xyz d]"
    by (simp add: store_node_def Let_def)
  moreover from first have "first_node ?s' = first_node s"
    by (auto simp add: store_node_def Let_def)
  ultimately show ?thesis
    using next_state count by (intro exI [of _ ?s']) simp
qed

text \<open>
  Counterexample to C2 as stated, at the two lines of the claim: the table has one entry
  for the id 5 with the contents of the second line, but the index of 5 is 1, the position
  of the second line, and there are two vertices.
\<close>

theorem seen_id_counterexample:
  "load_swc_file decimal_py fresh [''5 1 0 0 0 1 -1'', ''5 1 9 9 9 2 -1''] =
     Inr \<lparr>nodes =
            [(5, \<lparr>node_id = 5, node_type = 1, xyz = [9, 9, 9], radius = 2, parent_id = - 1\<rparr>)],
          first_node =
            Some \<lparr>node_id = 5, node_type = 1, xyz = [0, 0, 0], radius = 1, parent_id = - 1\<rparr>,
          index_from_id = [(5, 1)],
          vertices = [[0, 0, 0], [9, 9, 9]],
          edges = []\<rparr>"
  by code_simp

text \<open>
  The amended C2 at the same two lines: the loop after the first line, and after both.
\<close>

theorem seen_id_replaces_witness:
  "\<exists>s'. read_lines decimal_py (cleared fresh, 0) [''5 1 0 0 0 1 -1''] =
          Inr (\<lparr>nodes =
                  [(5, \<lparr>node_id = 5, node_type = 1, xyz = [0, 0, 0], radius = 1, parent_id = - 1\<rparr>)],
                first_node =
                  Some \<lparr>node_id = 5, node_type = 1, xyz = [0, 0, 0], radius = 1, parent_id = - 1\<rparr>,
                index_from_id = [(5, 0)], vertices = [[0, 0, 0]], edges = []\<rparr>, 1)
        \<and> parse_line decimal_py ''5 1 9 9 9 2 -1'' =
            Inr (Some \<lparr>node_id = 5, node_type = 1, xyz = [9, 9, 9], radius = 2, parent_id = - 1\<rparr>)
        \<and> read_lines decimal_py (cleared fresh, 0) [''5 1 0 0 0 1 -1'', ''5 1 9 9 9 2 -1''] =
            Inr (s', 2)
        \<and> dict_get (nodes s') 5 =
            Some \<lparr>node_id = 5, node_type = 1, xyz = [9, 9, 9], radius = 2, parent_id = - 1\<rparr>
        \<and> map fst (nodes s') = [5]
        \<and> dict_get (index_from_id s') 5 = Some 1
        \<and> vertices s' = [[0, 0, 0], [9, 9, 9]]"
proof -
  let ?a = "\<lparr>node_id = 5, node_type = 1, xyz = [0, 0, 0 :: rat], radius = 1, parent_id = - 1\<rparr>"
  let ?b = "\<lparr>node_id = 5, node_type = 1, xyz = [9, 9, 9 :: rat], radius = 2, parent_id = - 1\<rparr>"
  let ?s = "\<lparr>nodes = [(5, ?a)], first_node = Some ?a, index_from_id = [(5, 0)],
     vertices = [[0, 0, 0]], edges = []\<rparr>"
  have one: "read_lines decimal_py (cleared fresh, 0) [''5 1 0 0 0 1 -1''] = Inr (?s, 1)"
    by code_simp
  have two: "parse_line decimal_py ''5 1 9 9 9 2 -1'' = Inr (Some ?b)"
    by code_simp
  have seen: "dict_mem (nodes ?s) (node_id ?b)"
    by (simp add: dict_mem_def)
  from seen_id_replaces [OF one two seen]
  obtain s' where run: "read_lines decimal_py (cleared fresh, 0) ([''5 1 0 0 0 1 -1''] @ [''5 1 9 9 9 2 -1'']) =
        Inr (s', 1 + 1)"
    and entry: "dict_get (nodes s') (node_id ?b) = Some ?b"
    and keys: "map fst (nodes s') = map fst (nodes ?s)"
    and index: "dict_get (index_from_id s') (node_id ?b) = Some 1"
    and slots: "vertices s' = vertices ?s @ [xyz ?b]"
    by blast
  from run have run': "read_lines decimal_py (cleared fresh, 0)
      [''5 1 0 0 0 1 -1'', ''5 1 9 9 9 2 -1''] = Inr (s', 2)"
    by simp
  from entry have entry': "dict_get (nodes s') 5 = Some ?b" by simp
  from keys have keys': "map fst (nodes s') = [5]" by simp
  from index have index': "dict_get (index_from_id s') 5 = Some 1" by simp
  from slots have slots': "vertices s' = [[0, 0, 0], [9, 9, 9]]" by simp
  show ?thesis
    by (intro exI conjI) (fact one, fact two, fact run', fact entry', fact keys', fact index',
      fact slots')
qed

subsection \<open>C3: vertices and markers\<close>

text \<open>
  Claim C3: for every file that is read without error, also one with a repeated id, there
  are as many markers as skeleton vertices, and marker \<open>i\<close> is centred at vertex \<open>i\<close>.
  The code says the same of itself: \<open>create_node_spheres\<close> is to place one sphere at
  each vertex of the neuron structure (line 99, and the comment of line 51).  It does not
  do so when an id repeats.  Line 85 appends a vertex at every accepted line, and
  \<open>create_skeleton\<close> hands all of them over, while \<open>create_node_spheres\<close> builds one face
  for each entry of the table, and the table has one entry for each id.  At the two lines
  below the skeleton has two vertices and there is one face: vertex 0 has no sphere, and
  the only face, face 0, is centred at vertex 1.
\<close>

theorem duplicate_id_misaligned:
  "execute decimal_py fresh [''5 1 0 0 0 1 -1'', ''5 1 9 9 9 2 -1''] =
     Inr (\<lparr>nodes =
             [(5, \<lparr>node_id = 5, node_type = 1, xyz = [9, 9, 9], radius = 2, parent_id = - 1\<rparr>)],
           first_node =
             Some \<lparr>node_id = 5, node_type = 1, xyz = [0, 0, 0], radius = 1, parent_id = - 1\<rparr>,
           index_from_id = [(5, 1)],
           vertices = [[0, 0, 0], [9, 9, 9]],
           edges = []\<rparr>,
          \<lparr>skeleton = ([[0, 0, 0], [9, 9, 9]], []),
           spheres = ([[8, 8, 9], [8, 10, 9], [10, 10, 9], [10, 8, 9]], [[0, 1, 2, 3]])\<rparr>)"
  by code_simp

text \<open>
  The defect shows only when an id repeats.  In a file in which no two accepted lines
  carry the same id there are as many faces as vertices, face \<open>i\<close> is
  \<open>[4i, 4i+1, 4i+2, 4i+3]\<close>, and its four corners are the square of lines 109 to 114
  around vertex \<open>i\<close> for the radius of accepted line \<open>i\<close>.
\<close>

lemma markers_aligned_when_ids_distinct:
  assumes "load_swc_file py self lines = Inr s"
    and "accepted py lines = Inr ds"
    and "distinct (map node_id ds)"
  shows "\<exists>verts faces.
           create_node_spheres py s = Inr (verts, faces)
           \<and> length faces = length (vertices s)
           \<and> (\<forall>i < length (vertices s).
                 faces ! i = [4 * i, 4 * i + 1, 4 * i + 2, 4 * i + 3]
                 \<and> map (\<lambda>v. verts ! v) (faces ! i) = marker py (vertices s ! i) (radius (ds ! i))
                 \<and> length (vertices s ! i) = 3)"
proof -
  from assms(1) obtain ds' where acc: "accepted py lines = Inr ds'"
    and nd: "nodes s = nodes (fst (stored self ds'))"
    and vs: "vertices s = map xyz ds'"
    by (rule load_swc_file_InrE)
  from acc assms(2) have ds': "ds' = ds" by simp
  from assms(3) have table: "nodes s = map (\<lambda>d. (node_id d, d)) ds"
    by (simp add: nd ds' stored_nodes_distinct)
  have three: "length (xyz d) = 3" if "d \<in> set ds" for d
    using assms(2) that by (rule accepted_xyz)
  let ?blocks = "map (\<lambda>d. marker py (xyz d) (radius d)) ds"
  let ?verts = "concat ?blocks"
  let ?faces = "map (\<lambda>m. [4 * m, 4 * m + 1, 4 * m + 2, 4 * m + 3]) [0 ..< length ds]"
  have "\<forall>kd \<in> set (nodes s). length (xyz (snd kd)) = 3"
    by (auto simp add: table three)
  then have run: "create_node_spheres py s = Inr (?verts, ?faces)"
    by (simp add: create_node_spheres_def node_faces_eq) (simp add: table comp_def)
  have blocks: "\<forall>b \<in> set ?blocks. length b = 4"
    by (auto simp add: marker_length three)
  have each: "?faces ! i = [4 * i, 4 * i + 1, 4 * i + 2, 4 * i + 3]
      \<and> map (\<lambda>v. ?verts ! v) (?faces ! i) = marker py (vertices s ! i) (radius (ds ! i))
      \<and> length (vertices s ! i) = 3"
    if "i < length (vertices s)" for i
  proof -
    from that have i: "i < length ds" by (simp add: vs ds')
    then have face: "?faces ! i = [4 * i, 4 * i + 1, 4 * i + 2, 4 * i + 3]"
      by simp
    from i have b: "?blocks ! i = marker py (vertices s ! i) (radius (ds ! i))"
      by (simp add: vs ds')
    from i have "length (?blocks ! i) = 4"
      by (simp add: marker_length three)
    then have "[?blocks ! i ! 0, ?blocks ! i ! 1, ?blocks ! i ! 2, ?blocks ! i ! 3] = ?blocks ! i"
      by (rule four_nths)
    moreover have "?verts ! (4 * i + c) = ?blocks ! i ! c" if "c < 4" for c
      using blocks _ that by (rule concat_nth_blocks) (simp add: i)
    from this [of 0] this [of 1] this [of 2] this [of 3]
    have "map (\<lambda>v. ?verts ! v) [4 * i, 4 * i + 1, 4 * i + 2, 4 * i + 3] =
        [?blocks ! i ! 0, ?blocks ! i ! 1, ?blocks ! i ! 2, ?blocks ! i ! 3]"
      by simp
    ultimately have "map (\<lambda>v. ?verts ! v) (?faces ! i) = marker py (vertices s ! i) (radius (ds ! i))"
      by (simp only: face b)
    moreover from i have "length (vertices s ! i) = 3"
      by (simp add: vs ds' three)
    ultimately show ?thesis using face by blast
  qed
  have "length ?faces = length (vertices s)"
    by (simp add: vs ds')
  with run each show ?thesis by blast
qed

text \<open>
  A file of two nodes with different ids: two faces, the second around \<open>(1, 0, 0)\<close> with
  half-width \<open>0.25\<close>.
\<close>

lemma markers_aligned_example:
  "\<exists>s verts faces.
     load_swc_file decimal_py fresh [''1 1 0.0 0.0 0.0 1.0 -1'', ''2 3 1.0 0.0 0.0 0.5 1''] = Inr s
     \<and> accepted decimal_py [''1 1 0.0 0.0 0.0 1.0 -1'', ''2 3 1.0 0.0 0.0 0.5 1''] =
         Inr [\<lparr>node_id = 1, node_type = 1, xyz = [0, 0, 0], radius = 1, parent_id = - 1\<rparr>,
              \<lparr>node_id = 2, node_type = 3, xyz = [1, 0, 0], radius = 1 / 2, parent_id = 1\<rparr>]
     \<and> vertices s = [[0, 0, 0], [1, 0, 0]]
     \<and> create_node_spheres decimal_py s = Inr (verts, faces)
     \<and> length faces = 2
     \<and> faces ! 1 = [4, 5, 6, 7]
     \<and> map (\<lambda>v. verts ! v) (faces ! 1) =
         [[3 / 4, - (1 / 4), 0], [3 / 4, 1 / 4, 0], [5 / 4, 1 / 4, 0], [5 / 4, - (1 / 4), 0]]"
proof -
  let ?lines = "[''1 1 0.0 0.0 0.0 1.0 -1'', ''2 3 1.0 0.0 0.0 0.5 1'']"
  let ?a = "\<lparr>node_id = 1, node_type = 1, xyz = [0, 0, 0 :: rat], radius = 1, parent_id = - 1\<rparr>"
  let ?b = "\<lparr>node_id = 2, node_type = 3, xyz = [1, 0, 0 :: rat], radius = 1 / 2, parent_id = 1\<rparr>"
  let ?s = "\<lparr>nodes = [(1, ?a), (2, ?b)], first_node = Some ?a,
     index_from_id = [(1, 0), (2, 1)], vertices = [[0, 0, 0], [1, 0, 0]], edges = [(1, 0)]\<rparr>"
  have run: "load_swc_file decimal_py fresh ?lines = Inr ?s" by code_simp
  have acc: "accepted decimal_py ?lines = Inr [?a, ?b]" by code_simp
  have ids: "distinct (map node_id [?a, ?b])" by simp
  from markers_aligned_when_ids_distinct [OF run acc ids]
  obtain verts faces where sp: "create_node_spheres decimal_py ?s = Inr (verts, faces)"
    and n: "length faces = length (vertices ?s)"
    and each: "\<forall>i < length (vertices ?s).
                 faces ! i = [4 * i, 4 * i + 1, 4 * i + 2, 4 * i + 3]
                 \<and> map (\<lambda>v. verts ! v) (faces ! i) =
                     marker decimal_py (vertices ?s ! i) (radius ([?a, ?b] ! i))
                 \<and> length (vertices ?s ! i) = 3"
    by blast
  have second: "1 < length (vertices ?s)" by simp
  from each [rule_format, OF second]
  have f: "faces ! 1 = [4 * 1, 4 * 1 + 1, 4 * 1 + 2, 4 * 1 + 3]"
    and v: "map (\<lambda>v. verts ! v) (faces ! 1) =
          marker decimal_py (vertices ?s ! 1) (radius ([?a, ?b] ! 1))"
    by blast+
  from f have f': "faces ! 1 = [4, 5, 6, 7]" by simp
  have v': "map (\<lambda>v. verts ! v) (faces ! 1) =
      [[3 / 4, - (1 / 4), 0], [3 / 4, 1 / 4, 0], [5 / 4, 1 / 4, 0], [5 / 4, - (1 / 4), 0]]"
    unfolding v by (simp add: marker_def corners_def decimal_py_def)
  from n have n': "length faces = 2" by simp
  have vs: "vertices ?s = [[0, 0, 0], [1, 0, 0]]" by simp
  show ?thesis
    by (intro exI conjI) (fact run, fact acc, fact vs, fact sp, fact n', fact f', fact v')
qed

subsection \<open>C4: which edges are emitted, and in which order\<close>

text \<open>
  Claim C4: an entry of the table receives an edge exactly when its \<open>parent_id\<close> is a
  key of \<open>index_from_id\<close>, whatever the value of the id (\<open>-1\<close> included), and the edge
  list follows the order of the table.  The table lists the ids in the order in which they
  were first seen; the edge list is the list of the entries' edges in that order; every
  entry has an index \<open>v1\<close>; an edge leaves \<open>v1\<close> exactly when the parent's id is a
  key of the index, and every edge that leaves \<open>v1\<close> ends at the parent's index.
\<close>

theorem edges_follow_table:
  assumes "load_swc_file py self lines = Inr s"
  shows "\<exists>ds. accepted py lines = Inr ds
           \<and> map fst (nodes s) = first_seen (map node_id ds)
           \<and> edges s = List.map_filter (edge_of (index_from_id s)) (nodes s)
           \<and> (\<forall>kd \<in> set (nodes s).
                 \<exists>v1. dict_get (index_from_id s) (fst kd) = Some v1
                   \<and> ((\<exists>v2. (v1, v2) \<in> set (edges s)) \<longleftrightarrow>
                        dict_mem (index_from_id s) (parent_id (snd kd)))
                   \<and> (\<forall>v2. (v1, v2) \<in> set (edges s) \<longrightarrow>
                        dict_get (index_from_id s) (parent_id (snd kd)) = Some v2))"
proof -
  from assms obtain ds where acc: "accepted py lines = Inr ds"
    and nd: "nodes s = nodes (fst (stored self ds))"
    and ix: "index_from_id s = index_from_id (fst (stored self ds))"
    and es: "edges s = List.map_filter (edge_of (index_from_id s)) (nodes s)"
    by (rule load_swc_file_InrE)
  have order: "map fst (nodes s) = first_seen (map node_id ds)"
    by (simp add: nd stored_keys)
  have each: "\<exists>v1. dict_get (index_from_id s) (fst kd) = Some v1
                   \<and> ((\<exists>v2. (v1, v2) \<in> set (edges s)) \<longleftrightarrow>
                        dict_mem (index_from_id s) (parent_id (snd kd)))
                   \<and> (\<forall>v2. (v1, v2) \<in> set (edges s) \<longrightarrow>
                        dict_get (index_from_id s) (parent_id (snd kd)) = Some v2)"
    if kd: "kd \<in> set (nodes s)" for kd
  proof -
    from kd have "fst kd \<in> set (map node_id ds)"
      using stored_nodes_set [of self ds] by (auto simp add: nd)
    then have "dict_mem (index_from_id s) (fst kd)"
      by (simp add: ix stored_index_mem)
    then obtain v1 where v1: "dict_get (index_from_id s) (fst kd) = Some v1"
      by (auto simp add: dict_mem_iff)
    have only: "dict_get (index_from_id s) (parent_id (snd kd)) = Some v2"
      if "(v1, v2) \<in> set (edges s)" for v2
    proof -
      from that obtain kd' where kd': "kd' \<in> set (nodes s)"
        and e: "edge_of (index_from_id s) kd' = Some (v1, v2)"
        by (auto simp add: es set_map_filter)
      from e have v1': "dict_get (index_from_id s) (fst kd') = Some v1"
        and v2: "dict_get (index_from_id s) (parent_id (snd kd')) = Some v2"
        by (auto simp add: edge_of_def split: option.splits)
      from v1 v1' have "fst kd = fst kd'"
        unfolding ix by (rule stored_index_inj)
      moreover have "distinct (map fst (nodes s))"
        by (simp add: nd stored_nodes_distinct_keys)
      ultimately have "kd = kd'"
        using kd kd' by (metis eq_key_imp_eq_value prod.collapse)
      with v2 show ?thesis by simp
    qed
    have emitted: "\<exists>v2. (v1, v2) \<in> set (edges s)"
      if "dict_mem (index_from_id s) (parent_id (snd kd))"
    proof -
      from that obtain v2 where "dict_get (index_from_id s) (parent_id (snd kd)) = Some v2"
        by (auto simp add: dict_mem_iff)
      with v1 have "edge_of (index_from_id s) kd = Some (v1, v2)"
        by (simp add: edge_of_def)
      with kd have "(v1, v2) \<in> set (edges s)"
        by (auto simp add: es set_map_filter)
      then show ?thesis ..
    qed
    from only have "dict_mem (index_from_id s) (parent_id (snd kd))"
      if "\<exists>v2. (v1, v2) \<in> set (edges s)"
      using that by (auto simp add: dict_mem_iff)
    with emitted only v1 show ?thesis by blast
  qed
  from acc order es each show ?thesis by blast
qed

text \<open>
  The claim at a file with a node whose id is \<open>-1\<close>: the first node, whose parent is
  \<open>-1\<close>, receives the edge to it, the second node has no edge since no line carries the
  id 9, and the edges stand in the order of the nodes.
\<close>

theorem edges_follow_table_witness:
  "\<exists>s. load_swc_file decimal_py fresh [''4 1 0 0 0 1 -1'', ''-1 1 1 0 0 1 9'', ''2 1 2 0 0 1 4''] =
         Inr s
       \<and> map fst (nodes s) = [4, - 1, 2]
       \<and> index_from_id s = [(4, 0), (- 1, 1), (2, 2)]
       \<and> edges s = [(0, 1), (2, 0)]"
proof -
  let ?lines = "[''4 1 0 0 0 1 -1'', ''-1 1 1 0 0 1 9'', ''2 1 2 0 0 1 4'']"
  let ?s = "\<lparr>nodes =
      [(4, \<lparr>node_id = 4, node_type = 1, xyz = [0, 0, 0 :: rat], radius = 1, parent_id = - 1\<rparr>),
       (- 1, \<lparr>node_id = - 1, node_type = 1, xyz = [1, 0, 0], radius = 1, parent_id = 9\<rparr>),
       (2, \<lparr>node_id = 2, node_type = 1, xyz = [2, 0, 0], radius = 1, parent_id = 4\<rparr>)],
     first_node =
       Some \<lparr>node_id = 4, node_type = 1, xyz = [0, 0, 0], radius = 1, parent_id = - 1\<rparr>,
     index_from_id = [(4, 0), (- 1, 1), (2, 2)],
     vertices = [[0, 0, 0], [1, 0, 0], [2, 0, 0]],
     edges = [(0, 1), (2, 0)]\<rparr>"
  have run: "load_swc_file decimal_py fresh ?lines = Inr ?s" by code_simp
  from edges_follow_table [OF run]
  have "edges ?s = List.map_filter (edge_of (index_from_id ?s)) (nodes ?s)"
    by blast
  then have "edges ?s = [(0, 1), (2, 0)]"
    by simp
  with run show ?thesis by simp
qed

subsection \<open>C5: skipped lines and failed conversions\<close>

text \<open>
  Claim C5 has two parts.  A line that starts with \<open>#\<close> or splits into fewer than seven
  fields is skipped: it yields no node and no error, and the import runs as if the line
  were not in the file.  A line of at least seven fields one of whose first seven fields
  does not convert raises, and the exception ends the import whatever follows the line.
  The exception is the \<open>ValueError\<close> that \<open>int()\<close> or \<open>float()\<close> raises: nothing in
  lines 65 to 75 adds the line's number or its text to it.  C5 as amended keeps the first
  part, and in the second part the error is the one of the first field \<open>k\<close>, in the order
  0 to 6, whose conversion fails: the fields before it convert, and the error carries the
  message of the conversion of field \<open>k\<close> for the token of field \<open>k\<close>, and nothing else.
\<close>

theorem line_skipped_or_import_aborted:
  "(startswith line ''#'' \<or> length (split line) < 7 \<longrightarrow>
      parse_line py line = Inr None \<and>
      load_swc_file py self (before @ line # rest) = load_swc_file py self (before @ rest))
   \<and> (\<not> startswith line ''#'' \<and> 7 \<le> length (split line) \<and> conversion_fails py (split line) \<and>
        accepted py before = Inr ds \<longrightarrow>
      (\<exists>k<7. field_fails py k (split line ! k) \<and>
         (\<forall>j<k. \<not> field_fails py j (split line ! j)) \<and>
         parse_line py line = Inl (field_error py k (split line ! k)) \<and>
         load_swc_file py self (before @ line # rest) = Inl (field_error py k (split line ! k))))"
proof (intro conjI impI)
  assume skip: "startswith line ''#'' \<or> length (split line) < 7"
  then show none: "parse_line py line = Inr None"
    by (rule parse_line_skip)
  then show "load_swc_file py self (before @ line # rest) = load_swc_file py self (before @ rest)"
    by (simp add: load_swc_file_eq accepted_skip)
next
  assume bad: "\<not> startswith line ''#'' \<and> 7 \<le> length (split line) \<and>
    conversion_fails py (split line) \<and> accepted py before = Inr ds"
  then obtain k where k: "k < 7"
    and fails: "field_fails py k (split line ! k)"
    and first: "\<forall>j<k. \<not> field_fails py j (split line ! j)"
    and conv: "convert_fields py (split line) = Inl (field_error py k (split line ! k))"
    using convert_fields_fails [of "split line" py] by blast
  from bad conv have line: "parse_line py line = Inl (field_error py k (split line ! k))"
    by (simp add: parse_line_def Let_def)
  with bad have "accepted py (before @ line # rest) = Inl (field_error py k (split line ! k))"
    by (simp add: accepted_abort)
  then have "load_swc_file py self (before @ line # rest) = Inl (field_error py k (split line ! k))"
    by (simp add: load_swc_file_eq)
  with k fails first line show "\<exists>k<7. field_fails py k (split line ! k) \<and>
         (\<forall>j<k. \<not> field_fails py j (split line ! j)) \<and>
         parse_line py line = Inl (field_error py k (split line ! k)) \<and>
         load_swc_file py self (before @ line # rest) = Inl (field_error py k (split line ! k))"
    by blast
qed

text \<open>
  Counterexample to C5 as stated: the offending line is line 1 of the first file and
  line 2 of the second, with a different text, and the two imports end in the same error,
  the message of \<open>float()\<close> for the token \<open>abc\<close>; the error determines neither the line
  number nor the line.
\<close>

theorem error_without_line_counterexample:
  "load_swc_file decimal_py fresh [''1 1 0 abc 0 1 -1''] =
     Inl (ValueError (''could not convert string to float: '' @ CHR 0x27 # ''abc'' @ [CHR 0x27]))
   \<and> load_swc_file decimal_py fresh [''# header'', ''2 3 0.5 abc 4 4 1''] =
       Inl (ValueError (''could not convert string to float: '' @ CHR 0x27 # ''abc'' @ [CHR 0x27]))"
  by code_simp

text \<open>
  The amended C5 at a line of six fields, which changes nothing, and at a line whose
  fourth field is \<open>abc\<close>, which ends the import with the error of that field although a
  good line follows.
\<close>

theorem line_skipped_or_import_aborted_witness:
  "length (split ''1 1 0 0 0 1'') < 7
   \<and> parse_line decimal_py ''1 1 0 0 0 1'' = Inr None
   \<and> load_swc_file decimal_py fresh [''1 1 0 0 0 1 -1'', ''1 1 0 0 0 1'', ''2 1 1 0 0 1 1''] =
       load_swc_file decimal_py fresh [''1 1 0 0 0 1 -1'', ''2 1 1 0 0 1 1'']
   \<and> 7 \<le> length (split ''2 1 1 abc 0 1 1'')
   \<and> conversion_fails decimal_py (split ''2 1 1 abc 0 1 1'')
   \<and> load_swc_file decimal_py fresh [''1 1 0 0 0 1 -1'', ''2 1 1 abc 0 1 1'', ''3 1 2 0 0 1 2''] =
       Inl (field_error decimal_py 3 ''abc'')
   \<and> field_error decimal_py 3 ''abc'' =
       ValueError (''could not convert string to float: '' @ CHR 0x27 # ''abc'' @ [CHR 0x27])"
proof -
  let ?ok = "''1 1 0 0 0 1 -1''" and ?short = "''1 1 0 0 0 1''" and ?bad = "''2 1 1 abc 0 1 1''"
  have short: "length (split ?short) < 7" by code_simp
  have nohash: "\<not> startswith ?bad ''#''" by code_simp
  have seven: "7 \<le> length (split ?bad)" by code_simp
  have fails: "conversion_fails decimal_py (split ?bad)" by code_simp
  have before: "accepted decimal_py [?ok] =
      Inr [\<lparr>node_id = 1, node_type = 1, xyz = [0, 0, 0], radius = 1, parent_id = - 1\<rparr>]"
    by code_simp
  have skipped: "parse_line decimal_py ?short = Inr None \<and>
      load_swc_file decimal_py fresh ([?ok] @ ?short # [''2 1 1 0 0 1 1'']) =
      load_swc_file decimal_py fresh ([?ok] @ [''2 1 1 0 0 1 1''])"
    using line_skipped_or_import_aborted [of ?short decimal_py fresh "[?ok]" "[''2 1 1 0 0 1 1'']"] short
    by blast
  have "\<exists>k<7. field_fails decimal_py k (split ?bad ! k) \<and>
         (\<forall>j<k. \<not> field_fails decimal_py j (split ?bad ! j)) \<and>
         parse_line decimal_py ?bad = Inl (field_error decimal_py k (split ?bad ! k)) \<and>
         load_swc_file decimal_py fresh ([?ok] @ ?bad # [''3 1 2 0 0 1 2'']) =
           Inl (field_error decimal_py k (split ?bad ! k))"
    using line_skipped_or_import_aborted [of ?bad decimal_py fresh "[?ok]" "[''3 1 2 0 0 1 2'']"]
      nohash seven fails before
    by blast
  then obtain k
    where line: "parse_line decimal_py ?bad = Inl (field_error decimal_py k (split ?bad ! k))"
      and run: "load_swc_file decimal_py fresh ([?ok] @ ?bad # [''3 1 2 0 0 1 2'']) =
        Inl (field_error decimal_py k (split ?bad ! k))"
    by blast
  have "parse_line decimal_py ?bad = Inl (field_error decimal_py 3 ''abc'')"
    by code_simp
  with line have "field_error decimal_py k (split ?bad ! k) = field_error decimal_py 3 ''abc''"
    by simp
  with run have aborted:
    "load_swc_file decimal_py fresh ([?ok] @ ?bad # [''3 1 2 0 0 1 2'']) =
       Inl (field_error decimal_py 3 ''abc'')"
    by (simp only:)
  have message: "field_error decimal_py 3 ''abc'' =
      ValueError (''could not convert string to float: '' @ CHR 0x27 # ''abc'' @ [CHR 0x27])"
    by code_simp
  from short skipped seven fails aborted message show ?thesis by simp
qed

subsection \<open>C6: the number of edges\<close>

text \<open>
  Claim C6: the edge count is the number of table entries minus the number of roots, a
  root being an entry whose \<open>parent_id\<close> is not an id of the table.  The resolver looks at
  each entry once and never walks the tree, so the equation holds for every table the
  importer builds; the claim's conditions (distinct ids, no self-loop, a forest) are not
  needed for it.
\<close>

theorem edge_count:
  assumes "load_swc_file py self lines = Inr s"
  shows "length (edges s) +
           length (filter (\<lambda>kd. \<not> dict_mem (nodes s) (parent_id (snd kd))) (nodes s)) =
         length (nodes s)
       \<and> length (edges s) =
           length (nodes s) -
           length (filter (\<lambda>kd. \<not> dict_mem (nodes s) (parent_id (snd kd))) (nodes s))"
proof -
  from assms obtain ds where nd: "nodes s = nodes (fst (stored self ds))"
    and ix: "index_from_id s = index_from_id (fst (stored self ds))"
    and es: "edges s = List.map_filter (edge_of (index_from_id s)) (nodes s)"
    by (rule load_swc_file_InrE)
  have keys: "dict_mem (index_from_id s) k = dict_mem (nodes s) k" for k
    by (simp add: nd ix stored_index_mem stored_nodes_mem)
  have "edge_of (index_from_id s) kd = None \<longleftrightarrow> \<not> dict_mem (nodes s) (parent_id (snd kd))"
    if "kd \<in> set (nodes s)" for kd
  proof -
    from that have "dict_mem (nodes s) (fst kd)"
      by (simp add: dict_mem_def)
    then have "dict_mem (index_from_id s) (fst kd)"
      by (simp add: keys)
    then obtain v where "dict_get (index_from_id s) (fst kd) = Some v"
      by (auto simp add: dict_mem_iff)
    then have "edge_of (index_from_id s) kd = None \<longleftrightarrow>
        dict_get (index_from_id s) (parent_id (snd kd)) = None"
      by (simp add: edge_of_def split: option.splits)
    also have "\<dots> \<longleftrightarrow> \<not> dict_mem (index_from_id s) (parent_id (snd kd))"
      by (simp add: dict_mem_iff)
    also have "\<dots> \<longleftrightarrow> \<not> dict_mem (nodes s) (parent_id (snd kd))"
      by (simp add: keys)
    finally show ?thesis .
  qed
  then have "filter (\<lambda>kd. edge_of (index_from_id s) kd = None) (nodes s) =
      filter (\<lambda>kd. \<not> dict_mem (nodes s) (parent_id (snd kd))) (nodes s)"
    by (simp cong: filter_cong)
  with length_map_filter [of "edge_of (index_from_id s)" "nodes s"]
  have "length (edges s) +
           length (filter (\<lambda>kd. \<not> dict_mem (nodes s) (parent_id (snd kd))) (nodes s)) =
         length (nodes s)"
    by (simp add: es [symmetric])
  then show ?thesis by simp
qed

text \<open>
  The claim at a forest of five nodes with two roots: three edges.
\<close>

theorem edge_count_witness:
  "\<exists>s. load_swc_file decimal_py fresh
         [''1 1 0 0 0 1 -1'', ''2 1 1 0 0 1 1'', ''3 1 2 0 0 1 1'', ''10 1 5 5 5 1 -1'',
          ''11 1 6 5 5 1 10''] = Inr s
       \<and> length (nodes s) = 5
       \<and> length (filter (\<lambda>kd. \<not> dict_mem (nodes s) (parent_id (snd kd))) (nodes s)) = 2
       \<and> length (edges s) = 3"
proof -
  let ?lines = "[''1 1 0 0 0 1 -1'', ''2 1 1 0 0 1 1'', ''3 1 2 0 0 1 1'', ''10 1 5 5 5 1 -1'',
          ''11 1 6 5 5 1 10'']"
  let ?s = "\<lparr>nodes =
      [(1, \<lparr>node_id = 1, node_type = 1, xyz = [0, 0, 0 :: rat], radius = 1, parent_id = - 1\<rparr>),
       (2, \<lparr>node_id = 2, node_type = 1, xyz = [1, 0, 0], radius = 1, parent_id = 1\<rparr>),
       (3, \<lparr>node_id = 3, node_type = 1, xyz = [2, 0, 0], radius = 1, parent_id = 1\<rparr>),
       (10, \<lparr>node_id = 10, node_type = 1, xyz = [5, 5, 5], radius = 1, parent_id = - 1\<rparr>),
       (11, \<lparr>node_id = 11, node_type = 1, xyz = [6, 5, 5], radius = 1, parent_id = 10\<rparr>)],
     first_node =
       Some \<lparr>node_id = 1, node_type = 1, xyz = [0, 0, 0], radius = 1, parent_id = - 1\<rparr>,
     index_from_id = [(1, 0), (2, 1), (3, 2), (10, 3), (11, 4)],
     vertices = [[0, 0, 0], [1, 0, 0], [2, 0, 0], [5, 5, 5], [6, 5, 5]],
     edges = [(1, 0), (2, 0), (4, 3)]\<rparr>"
  have run: "load_swc_file decimal_py fresh ?lines = Inr ?s" by code_simp
  have size: "length (nodes ?s) = 5" by simp
  have roots: "length (filter (\<lambda>kd. \<not> dict_mem (nodes ?s) (parent_id (snd kd))) (nodes ?s)) = 2"
    by (simp add: dict_mem_def)
  from edge_count [OF run] size roots have "length (edges ?s) = 3"
    by simp
  with run size roots show ?thesis by blast
qed

subsection \<open>C7: a parent that is read after its child\<close>

text \<open>
  Claim C7 says that whenever a child's line comes before the line that carries its
  parent's id, the edge from the child's index to the parent's index is emitted.  The
  edges are resolved after the whole file has been read, so a later parent is found; but
  they are resolved from the table, and a later line that reuses the child's id replaces
  the child's entry and with it the parent link.  C7 as amended: when the node of accepted
  line \<open>i\<close> names as its parent the id of a later accepted line \<open>j\<close>, and no accepted
  line after \<open>i\<close> reuses the id of line \<open>i\<close>, then the child's index is \<open>i\<close>, the
  parent's index is the position \<open>p\<close> of the last line with the parent's id, which is
  \<open>j\<close> or later, and the edge \<open>(i, p)\<close> is emitted.
\<close>

theorem forward_reference_resolved:
  assumes "load_swc_file py self lines = Inr s"
    and "accepted py lines = Inr ds"
    and "i < j" and "j < length ds"
    and "parent_id (ds ! i) = node_id (ds ! j)"
    and "node_id (ds ! i) \<notin> set (map node_id (drop (Suc i) ds))"
  shows "dict_get (index_from_id s) (node_id (ds ! i)) = Some i
         \<and> (\<exists>p. dict_get (index_from_id s) (node_id (ds ! j)) = Some p \<and> j \<le> p
                \<and> (i, p) \<in> set (edges s))"
proof -
  from assms(1) obtain ds' where acc: "accepted py lines = Inr ds'"
    and nd: "nodes s = nodes (fst (stored self ds'))"
    and ix: "index_from_id s = index_from_id (fst (stored self ds'))"
    and es: "edges s = List.map_filter (edge_of (index_from_id s)) (nodes s)"
    by (rule load_swc_file_InrE)
  from acc assms(2) have ds': "ds' = ds" by simp
  from assms(3,4) have i: "i < length ds" by simp
  with assms(6) have child: "dict_get (index_from_id s) (node_id (ds ! i)) = Some i"
    by (simp add: ix ds' stored_index_get)
  then have "dict_get (nodes s) (node_id (ds ! i)) = Some (ds ! i)"
    unfolding ix nd ds' by (rule stored_nodes_at)
  then have entry: "(node_id (ds ! i), ds ! i) \<in> set (nodes s)"
    by (simp add: dict_get_def map_of_SomeD)
  from assms(4) have "dict_mem (index_from_id s) (node_id (ds ! j))"
    by (simp add: ix ds' stored_index_mem)
  then obtain p where p: "dict_get (index_from_id s) (node_id (ds ! j)) = Some p"
    by (auto simp add: dict_mem_iff)
  then have last: "node_id (ds ! j) \<notin> set (map node_id (drop (Suc p) ds))"
    by (simp add: ix ds' stored_index_get)
  have "j \<le> p"
  proof (rule ccontr)
    assume "\<not> j \<le> p"
    then have "Suc p \<le> j" by simp
    from this assms(4) have "ds ! j \<in> set (drop (Suc p) ds)"
      by (rule nth_in_drop)
    with last show False by simp
  qed
  moreover from child p assms(5) have "edge_of (index_from_id s) (node_id (ds ! i), ds ! i) = Some (i, p)"
    by (simp add: edge_of_def)
  with entry have "(i, p) \<in> set (edges s)"
    by (auto simp add: es set_map_filter)
  ultimately show ?thesis
    using child p by blast
qed

text \<open>
  Counterexample to C7 as stated: the child of line 1 names the node of line 2 as its
  parent, line 3 reuses the child's id with no parent, and no edge is emitted.
\<close>

theorem forward_reference_counterexample:
  "load_swc_file decimal_py fresh [''1 1 0 0 0 1 2'', ''2 1 1 0 0 1 -1'', ''1 1 5 5 5 1 -1''] =
     Inr \<lparr>nodes =
            [(1, \<lparr>node_id = 1, node_type = 1, xyz = [5, 5, 5], radius = 1, parent_id = - 1\<rparr>),
             (2, \<lparr>node_id = 2, node_type = 1, xyz = [1, 0, 0], radius = 1, parent_id = - 1\<rparr>)],
          first_node =
            Some \<lparr>node_id = 1, node_type = 1, xyz = [0, 0, 0], radius = 1, parent_id = 2\<rparr>,
          index_from_id = [(1, 2), (2, 1)],
          vertices = [[0, 0, 0], [1, 0, 0], [5, 5, 5]],
          edges = []\<rparr>"
  by code_simp

text \<open>
  The amended C7 at a file whose first line names the node of its third line as parent.
\<close>

theorem forward_reference_resolved_witness:
  "\<exists>s. load_swc_file decimal_py fresh [''3 1 0 0 0 1 8'', ''5 1 1 0 0 1 8'', ''8 1 2 0 0 1 -1''] =
         Inr s
       \<and> accepted decimal_py [''3 1 0 0 0 1 8'', ''5 1 1 0 0 1 8'', ''8 1 2 0 0 1 -1''] =
           Inr [\<lparr>node_id = 3, node_type = 1, xyz = [0, 0, 0], radius = 1, parent_id = 8\<rparr>,
                \<lparr>node_id = 5, node_type = 1, xyz = [1, 0, 0], radius = 1, parent_id = 8\<rparr>,
                \<lparr>node_id = 8, node_type = 1, xyz = [2, 0, 0], radius = 1, parent_id = - 1\<rparr>]
       \<and> dict_get (index_from_id s) 3 = Some 0
       \<and> dict_get (index_from_id s) 8 = Some 2
       \<and> (0, 2) \<in> set (edges s)"
proof -
  let ?lines = "[''3 1 0 0 0 1 8'', ''5 1 1 0 0 1 8'', ''8 1 2 0 0 1 -1'']"
  let ?ds = "[\<lparr>node_id = 3, node_type = 1, xyz = [0, 0, 0 :: rat], radius = 1, parent_id = 8\<rparr>,
              \<lparr>node_id = 5, node_type = 1, xyz = [1, 0, 0], radius = 1, parent_id = 8\<rparr>,
              \<lparr>node_id = 8, node_type = 1, xyz = [2, 0, 0], radius = 1, parent_id = - 1\<rparr>]"
  let ?s = "\<lparr>nodes = [(3, ?ds ! 0), (5, ?ds ! 1), (8, ?ds ! 2)],
     first_node = Some (?ds ! 0),
     index_from_id = [(3, 0), (5, 1), (8, 2)],
     vertices = [[0, 0, 0], [1, 0, 0], [2, 0, 0]],
     edges = [(0, 2), (1, 2)]\<rparr>"
  have run: "load_swc_file decimal_py fresh ?lines = Inr ?s" by code_simp
  have acc: "accepted decimal_py ?lines = Inr ?ds" by code_simp
  have order: "(0 :: nat) < 2" and len: "2 < length ?ds" by simp_all
  have parent: "parent_id (?ds ! 0) = node_id (?ds ! 2)" by simp
  have final: "node_id (?ds ! 0) \<notin> set (map node_id (drop (Suc 0) ?ds))" by simp
  from forward_reference_resolved [OF run acc order len parent final]
  have "dict_get (index_from_id ?s) 3 = Some 0
      \<and> (\<exists>p. dict_get (index_from_id ?s) 8 = Some p \<and> 2 \<le> p \<and> (0, p) \<in> set (edges ?s))"
    by simp
  then have "dict_get (index_from_id ?s) 3 = Some 0 \<and> dict_get (index_from_id ?s) 8 = Some 2
      \<and> (0, 2) \<in> set (edges ?s)"
    by (simp add: dict_get_def)
  with run acc show ?thesis by blast
qed

subsection \<open>C8: running twice\<close>

text \<open>
  Claim C8: the import is a function of the text of the file.  \<open>load_swc_file\<close> resets
  \<open>nodes\<close>, \<open>first_node\<close>, \<open>index_from_id\<close> and \<open>vertices\<close> before it reads and
  \<open>edges\<close> before it resolves, so the object it starts from has no influence: from any
  two objects the run gives the same state, the same skeleton and the same faces, or the
  same error (that of a line, or the \<open>AttributeError\<close> of line 50 when no line was
  accepted); and a second run, started from the object \<open>s\<close> that a first run left,
  returns the same object and the same meshes \<open>m\<close>.
\<close>

theorem execute_twice_same:
  "execute (py :: 'f builtins) self lines = execute py self' lines
   \<and> (execute py self lines = Inr (s, m) \<longrightarrow> execute py s lines = Inr (s, m))"
proof -
  have load: "load_swc_file py a lines = load_swc_file py b lines" for a b :: "'f swc"
  proof (cases "accepted py lines")
    case (Inl e)
    then show ?thesis by (simp add: load_swc_file_eq)
  next
    case (Inr ds)
    have "fst (stored a ds) = (fst (stored b ds))\<lparr>edges := edges a\<rparr>"
      by (subst stored_edges_only [of a ds b]) simp
    then show ?thesis by (simp add: load_swc_file_eq Inr)
  qed
  have run: "execute py a lines = execute py b lines" for a b :: "'f swc"
    by (simp add: execute_def load [of a b])
  from run [of self self'] run [of s self] show ?thesis by simp
qed

text \<open>
  The claim at a file of two nodes: the second run starts from the object the first run
  left and returns the same object and the same meshes.  A file without a node ends in the
  \<open>AttributeError\<close> of line 50, from the fresh object and from that object alike.
\<close>

theorem execute_twice_same_witness:
  "\<exists>s m. execute decimal_py fresh [''1 1 0.0 0.0 0.0 1.0 -1'', ''2 3 1.0 0.0 0.0 0.5 1''] = Inr (s, m)
         \<and> execute decimal_py s [''1 1 0.0 0.0 0.0 1.0 -1'', ''2 3 1.0 0.0 0.0 0.5 1''] = Inr (s, m)
         \<and> skeleton m = ([[0, 0, 0], [1, 0, 0]], [(1, 0)])
         \<and> execute decimal_py fresh [''# no node''] = Inl AttributeError
         \<and> execute decimal_py s [''# no node''] = Inl AttributeError"
proof -
  let ?lines = "[''1 1 0.0 0.0 0.0 1.0 -1'', ''2 3 1.0 0.0 0.0 0.5 1'']"
  let ?a = "\<lparr>node_id = 1, node_type = 1, xyz = [0, 0, 0 :: rat], radius = 1, parent_id = - 1\<rparr>"
  let ?b = "\<lparr>node_id = 2, node_type = 3, xyz = [1, 0, 0 :: rat], radius = 1 / 2, parent_id = 1\<rparr>"
  let ?s = "\<lparr>nodes = [(1, ?a), (2, ?b)], first_node = Some ?a,
     index_from_id = [(1, 0), (2, 1)], vertices = [[0, 0, 0], [1, 0, 0]], edges = [(1, 0)]\<rparr>"
  let ?m = "\<lparr>skeleton = ([[0, 0, 0], [1, 0, 0 :: rat]], [(1 :: nat, 0 :: nat)]),
     spheres =
       ([[- (1 / 2), - (1 / 2), 0], [- (1 / 2), 1 / 2, 0], [1 / 2, 1 / 2, 0], [1 / 2, - (1 / 2), 0],
         [3 / 4, - (1 / 4), 0], [3 / 4, 1 / 4, 0], [5 / 4, 1 / 4, 0], [5 / 4, - (1 / 4), 0]],
        [[0, 1, 2, 3], [4, 5, 6, 7 :: nat]])\<rparr>"
  have first: "execute decimal_py fresh ?lines = Inr (?s, ?m)" by code_simp
  with execute_twice_same [of decimal_py fresh ?lines fresh ?s ?m]
  have second: "execute decimal_py ?s ?lines = Inr (?s, ?m)" by simp
  have third: "skeleton ?m = ([[0, 0, 0], [1, 0, 0]], [(1, 0)])" by simp
  have empty: "execute decimal_py fresh [''# no node''] = Inl AttributeError" by code_simp
  with execute_twice_same [of decimal_py ?s "[''# no node'']" fresh]
  have again: "execute decimal_py ?s [''# no node''] = Inl AttributeError" by simp
  show ?thesis
    by (intro exI conjI) (fact first, fact second, fact third, fact empty, fact again)
qed

subsection \<open>C9: more than seven fields\<close>

text \<open>
  Claim C9 says that every line of more than seven fields is accepted as the record of its
  first seven fields.  The test for a comment comes first (line 66) and the conversions of
  the first seven fields can raise (lines 71 to 75), whatever the number of fields.  C9 as
  amended: a line that does not start with \<open>#\<close> and has more than seven fields is read
  as its first seven fields alone.  Its result is the one of the first seven fields, it is
  never skipped, and when the seven conversions succeed it is accepted as the node they
  give.
\<close>

theorem extra_fields_ignored:
  assumes "\<not> startswith line ''#''" and "7 < length (split line)"
  shows "parse_line py line =
           (case convert_fields py (take 7 (split line)) of
              Inl e \<Rightarrow> Inl e
            | Inr d \<Rightarrow> Inr (Some d))
         \<and> parse_line py line \<noteq> Inr None
         \<and> (\<not> conversion_fails py (split line) \<longrightarrow>
              (\<exists>i t x y z r q.
                 parse_line py line =
                   Inr (Some \<lparr>node_id = i, node_type = t, xyz = [x, y, z], radius = r,
                              parent_id = q\<rparr>) \<and>
                 int_of py (split line ! 0) = Some i \<and> int_of py (split line ! 1) = Some t \<and>
                 float_of py (split line ! 2) = Some x \<and> float_of py (split line ! 3) = Some y \<and>
                 float_of py (split line ! 4) = Some z \<and> float_of py (split line ! 5) = Some r \<and>
                 int_of py (split line ! 6) = Some q))"
proof -
  from assms(2) have seven: "7 \<le> length (split line)" by simp
  with assms(1) have line: "parse_line py line =
      (case convert_fields py (split line) of Inl e \<Rightarrow> Inl e | Inr d \<Rightarrow> Inr (Some d))"
    by (simp add: parse_line_def Let_def)
  have first: "parse_line py line =
      (case convert_fields py (take 7 (split line)) of Inl e \<Rightarrow> Inl e | Inr d \<Rightarrow> Inr (Some d))"
    by (simp add: line convert_fields_take [OF seven])
  have second: "parse_line py line \<noteq> Inr None"
    by (simp add: line split: sum.splits)
  have third: "\<exists>i t x y z r q.
                 parse_line py line =
                   Inr (Some \<lparr>node_id = i, node_type = t, xyz = [x, y, z], radius = r,
                              parent_id = q\<rparr>) \<and>
                 int_of py (split line ! 0) = Some i \<and> int_of py (split line ! 1) = Some t \<and>
                 float_of py (split line ! 2) = Some x \<and> float_of py (split line ! 3) = Some y \<and>
                 float_of py (split line ! 4) = Some z \<and> float_of py (split line ! 5) = Some r \<and>
                 int_of py (split line ! 6) = Some q"
    if "\<not> conversion_fails py (split line)"
    using convert_fields_succeeds [OF seven that] by (auto simp add: line)
  from first second third show ?thesis by blast
qed

text \<open>
  Counterexample to C9 as stated: two lines of eight fields; the first starts with \<open>#\<close>
  and is skipped, the second ends in the error of its fourth field.
\<close>

theorem extra_fields_counterexample:
  "7 < length (split ''#1 1 0 0 0 1 -1 extra'')
   \<and> parse_line decimal_py ''#1 1 0 0 0 1 -1 extra'' = Inr None
   \<and> 7 < length (split ''1 1 0 abc 0 1 -1 extra'')
   \<and> parse_line decimal_py ''1 1 0 abc 0 1 -1 extra'' =
       Inl (ValueError (''could not convert string to float: '' @ CHR 0x27 # ''abc'' @ [CHR 0x27]))"
  by code_simp

text \<open>
  The amended C9 at a line of nine fields.
\<close>

theorem extra_fields_ignored_witness:
  "\<not> startswith ''7 2 1.5 0 -3 0.5 4 extra 9'' ''#''
   \<and> 7 < length (split ''7 2 1.5 0 -3 0.5 4 extra 9'')
   \<and> parse_line decimal_py ''7 2 1.5 0 -3 0.5 4 extra 9'' =
       Inr (Some \<lparr>node_id = 7, node_type = 2, xyz = [3 / 2, 0, - 3], radius = 1 / 2, parent_id = 4\<rparr>)
   \<and> parse_line decimal_py ''7 2 1.5 0 -3 0.5 4 extra 9'' \<noteq> Inr None"
proof -
  let ?line = "''7 2 1.5 0 -3 0.5 4 extra 9''"
  have nohash: "\<not> startswith ?line ''#''" by code_simp
  have more: "7 < length (split ?line)" by code_simp
  have seven: "convert_fields decimal_py (take 7 (split ?line)) =
      Inr \<lparr>node_id = 7, node_type = 2, xyz = [3 / 2, 0, - 3], radius = 1 / 2, parent_id = 4\<rparr>"
    by code_simp
  from extra_fields_ignored [OF nohash more, of decimal_py] seven nohash more
  show ?thesis by simp
qed

subsection \<open>C10: the first node\<close>

text \<open>
  Claim C10: \<open>first_node\<close> is the node of the first accepted line and stays so; when a
  later line reuses its id, the table holds the node of the last such line for that id
  while \<open>first_node\<close> still holds the first line's node.
\<close>

theorem first_node_frozen:
  assumes "load_swc_file py self lines = Inr s"
    and "accepted py lines = Inr (d # ds)"
  shows "first_node s = Some d
         \<and> dict_get (nodes s) (node_id d) =
             Some (last (d # filter (\<lambda>x. node_id x = node_id d) ds))"
proof -
  from assms(1) obtain ds' where acc: "accepted py lines = Inr ds'"
    and nd: "nodes s = nodes (fst (stored self ds'))"
    and fn: "first_node s = (case ds' of [] \<Rightarrow> None | d # r \<Rightarrow> Some d)"
    by (rule load_swc_file_InrE)
  from acc assms(2) have ds': "ds' = d # ds" by simp
  have "first_node s = Some d"
    by (simp add: fn ds')
  moreover have "dict_get (nodes s) (node_id d) =
      Some (last (d # filter (\<lambda>x. node_id x = node_id d) ds))"
    by (simp add: nd ds' stored_nodes_get)
  ultimately show ?thesis by simp
qed

text \<open>
  The claim at a file whose third line reuses the id of the first with other contents.
\<close>

theorem first_node_frozen_witness:
  "\<exists>s. load_swc_file decimal_py fresh [''5 1 0 0 0 1 -1'', ''6 1 1 0 0 1 5'', ''5 2 9 9 9 2 6''] =
         Inr s
       \<and> accepted decimal_py [''5 1 0 0 0 1 -1'', ''6 1 1 0 0 1 5'', ''5 2 9 9 9 2 6''] =
           Inr [\<lparr>node_id = 5, node_type = 1, xyz = [0, 0, 0], radius = 1, parent_id = - 1\<rparr>,
                \<lparr>node_id = 6, node_type = 1, xyz = [1, 0, 0], radius = 1, parent_id = 5\<rparr>,
                \<lparr>node_id = 5, node_type = 2, xyz = [9, 9, 9], radius = 2, parent_id = 6\<rparr>]
       \<and> first_node s =
           Some \<lparr>node_id = 5, node_type = 1, xyz = [0, 0, 0], radius = 1, parent_id = - 1\<rparr>
       \<and> dict_get (nodes s) 5 =
           Some \<lparr>node_id = 5, node_type = 2, xyz = [9, 9, 9], radius = 2, parent_id = 6\<rparr>"
proof -
  let ?lines = "[''5 1 0 0 0 1 -1'', ''6 1 1 0 0 1 5'', ''5 2 9 9 9 2 6'']"
  let ?a = "\<lparr>node_id = 5, node_type = 1, xyz = [0, 0, 0 :: rat], radius = 1, parent_id = - 1\<rparr>"
  let ?b = "\<lparr>node_id = 6, node_type = 1, xyz = [1, 0, 0 :: rat], radius = 1, parent_id = 5\<rparr>"
  let ?c = "\<lparr>node_id = 5, node_type = 2, xyz = [9, 9, 9 :: rat], radius = 2, parent_id = 6\<rparr>"
  let ?s = "\<lparr>nodes = [(5, ?c), (6, ?b)], first_node = Some ?a, index_from_id = [(5, 2), (6, 1)],
          vertices = [[0, 0, 0], [1, 0, 0], [9, 9, 9]], edges = [(2, 1), (1, 2)]\<rparr>"
  have run: "load_swc_file decimal_py fresh ?lines = Inr ?s" by code_simp
  have acc: "accepted decimal_py ?lines = Inr (?a # [?b, ?c])" by code_simp
  from first_node_frozen [OF run acc] run acc show ?thesis by simp
qed

end
